theory Spec2Isabelle
  imports Main "HOL-Library.Word" "HOL-Library.Sublist"
begin

section \<open>Strings of the host language\<close>

text \<open>
  A JavaScript string is a sequence of 16-bit code units. Literals of the source are
  written through \<open>js\<close>, which maps each ASCII character to its code unit.
\<close>

type_synonym jschar = "16 word"
type_synonym jsstring = "jschar list"

definition js :: "string \<Rightarrow> jsstring" where
  "js s = map (\<lambda>c. of_nat (of_char c)) s"

text \<open>
  Case-insensitive matching of a regular expression without the \<open>u\<close> flag compares
  canonicalised code units: a code unit is upper-cased, except that a code unit above
  127 is never mapped into ASCII. Every character of the pattern below is ASCII, so
  the comparison against it is decided by ASCII upper-casing alone.
\<close>

definition canonicalize :: "jschar \<Rightarrow> jschar" where
  "canonicalize c = (if 0x61 \<le> c \<and> c \<le> 0x7A then c - 0x20 else c)"

text \<open>
  \<open>toLowerCase\<close> restricted to ASCII letters; the rewriter applies it only to the day
  name captured by the pattern, which consists of ASCII letters.
\<close>

definition toLowerCase :: "jsstring \<Rightarrow> jsstring" where
  "toLowerCase s = map (\<lambda>c. if 0x41 \<le> c \<and> c \<le> 0x5A then c + 0x20 else c) s"

text \<open>Line terminators: the characters the pattern atom \<open>.\<close> does not match.\<close>

definition is_line_terminator :: "jschar \<Rightarrow> bool" where
  "is_line_terminator c = (c = 0x0A \<or> c = 0x0D \<or> c = 0x2028 \<or> c = 0x2029)"

text \<open>White space and line terminators: the characters \<open>trim\<close> strips.\<close>

definition is_js_space :: "jschar \<Rightarrow> bool" where
  "is_js_space c =
     (c = 0x09 \<or> c = 0x0B \<or> c = 0x0C \<or> c = 0x20 \<or> c = 0xA0 \<or> c = 0x1680
      \<or> (0x2000 \<le> c \<and> c \<le> 0x200A) \<or> c = 0x202F \<or> c = 0x205F \<or> c = 0x3000
      \<or> c = 0xFEFF \<or> is_line_terminator c)"

definition trim :: "jsstring \<Rightarrow> jsstring" where
  "trim s = rev (dropWhile is_js_space (rev (dropWhile is_js_space s)))"

fun indexOf :: "'a list \<Rightarrow> 'a \<Rightarrow> nat option" where
  "indexOf [] x = None"
| "indexOf (y # ys) x = (if y = x then Some 0 else map_option Suc (indexOf ys x))"

section \<open>The placeholder pattern\<close>

text \<open>
  The pattern of \<open>replaceDatePlaceholders\<close> (and of the older inline code):
  \<^verbatim>\<open>/!{{(sunday|monday|tuesday|wednesday|thursday|friday|saturday):(.[^}]*)}}/gi\<close>
  A match attempt at the head of a string is modelled piece by piece, with the
  backtracking of the alternation and of the greedy star written out.
\<close>

definition days :: "jsstring list" where
  "days = [js ''sunday'', js ''monday'', js ''tuesday'', js ''wednesday'',
           js ''thursday'', js ''friday'', js ''saturday'']"

record rmatch =
  mt_text :: jsstring
  mt_dayName :: jsstring
  mt_format :: jsstring
  mt_rest :: jsstring

text \<open>A literal piece of the pattern, compared case-insensitively; returns the rest.\<close>

definition match_lit :: "jsstring \<Rightarrow> jsstring \<Rightarrow> jsstring option" where
  "match_lit p s =
     (if length p \<le> length s \<and> map canonicalize (take (length p) s) = map canonicalize p
      then Some (drop (length p) s) else None)"

text \<open>The closing \<open>}}\<close>.\<close>

definition m_close :: "jsstring \<Rightarrow> jsstring option" where
  "m_close s = match_lit (js ''}}'') s"

text \<open>
  \<open>[^}]*\<close> followed by the closing braces: greedy, so the longer repetition is tried
  first and the shorter one only when the rest of the pattern fails after it.
\<close>

fun m_star :: "jsstring \<Rightarrow> jsstring \<Rightarrow> (jsstring \<times> jsstring) option" where
  "m_star acc [] = map_option (\<lambda>r. (acc, r)) (m_close [])"
| "m_star acc (c # cs) =
     (if c \<noteq> 0x7D
      then (case m_star (acc @ [c]) cs of
              Some r \<Rightarrow> Some r
            | None \<Rightarrow> map_option (\<lambda>r. (acc, r)) (m_close (c # cs)))
      else map_option (\<lambda>r. (acc, r)) (m_close (c # cs)))"

text \<open>The second group \<open>(.[^}]*)\<close> and what follows it.\<close>

definition m_spec :: "jsstring \<Rightarrow> (jsstring \<times> jsstring) option" where
  "m_spec s = (case s of [] \<Rightarrow> None
               | c # cs \<Rightarrow> if is_line_terminator c then None else m_star [c] cs)"

text \<open>The colon, then the second group.\<close>

definition m_colon :: "jsstring \<Rightarrow> (jsstring \<times> jsstring) option" where
  "m_colon s = (case match_lit (js '':'') s of None \<Rightarrow> None | Some r \<Rightarrow> m_spec r)"

text \<open>
  The alternation of the first group: the alternatives in the order of the pattern; a
  later one is tried when an earlier one, or the rest of the pattern after it, fails.
\<close>

fun m_alt :: "jsstring list \<Rightarrow> jsstring \<Rightarrow> (jsstring \<times> jsstring \<times> jsstring) option" where
  "m_alt [] s = None"
| "m_alt (d # ds) s =
     (case match_lit d s of
        None \<Rightarrow> m_alt ds s
      | Some r \<Rightarrow> (case m_colon r of
                     None \<Rightarrow> m_alt ds s
                   | Some (f, rest) \<Rightarrow> Some (take (length d) s, f, rest)))"

definition match_at :: "jsstring \<Rightarrow> rmatch option" where
  "match_at s =
     (case match_lit (js ''!{{'') s of
        None \<Rightarrow> None
      | Some r \<Rightarrow> (case m_alt days r of
                     None \<Rightarrow> None
                   | Some (d, f, rest) \<Rightarrow>
                       Some \<lparr>mt_text = take (length s - length rest) s, mt_dayName = d,
                             mt_format = f, mt_rest = rest\<rparr>))"


lemma match_lit_length:
  "match_lit p s = Some r \<Longrightarrow> length s = length p + length r"
  by (auto simp: match_lit_def split: if_splits)

lemma match_lit_append:
  "match_lit p s = Some r \<Longrightarrow> s = take (length p) s @ r"
  by (auto simp: match_lit_def split: if_splits)

lemma m_star_length:
  "m_star acc s = Some (f, r) \<Longrightarrow> length r + 2 \<le> length s"
proof (induction s arbitrary: acc)
  case Nil
  then show ?case by (auto simp: m_close_def match_lit_def js_def)
next
  case (Cons c cs)
  show ?case
  proof (cases "c \<noteq> 0x7D \<and> m_star (acc @ [c]) cs \<noteq> None")
    case True
    then obtain q where q: "m_star (acc @ [c]) cs = Some q" by auto
    with Cons.prems True have "q = (f, r)" by simp
    with q Cons.IH show ?thesis by fastforce
  next
    case False
    with Cons.prems have "m_close (c # cs) = Some r"
      by (auto split: if_splits option.splits)
    then show ?thesis
      by (auto simp: m_close_def js_def dest: match_lit_length)
  qed
qed

lemma m_colon_length:
  "m_colon s = Some (f, r) \<Longrightarrow> length r + 4 \<le> length s"
  by (auto simp: m_colon_def m_spec_def js_def
      split: option.splits list.splits if_splits
      dest!: match_lit_length m_star_length)

lemma m_alt_length:
  "m_alt ds s = Some (d, f, r) \<Longrightarrow> length r + 4 \<le> length s"
proof (induction ds)
  case Nil
  then show ?case by simp
next
  case (Cons a ds)
  then show ?case
    by (auto split: option.splits dest!: match_lit_length m_colon_length)
qed

lemma match_at_length:
  "match_at s = Some m \<Longrightarrow> length (mt_rest m) + 7 \<le> length s"
  by (auto simp: match_at_def js_def split: option.splits
      dest!: match_lit_length m_alt_length)

section \<open>Global replacement\<close>

text \<open>
  \<open>String.prototype.replace\<close> with a global pattern first collects the matches from
  left to right (a match attempt at every position; after a match the scan goes on at
  its end), then calls the replacer once per match, in order. The scan is \<open>tokenize\<close>;
  a \<open>Lit\<close> is a code unit outside every match.
\<close>

datatype piece = Lit jschar | Tok rmatch

function tokenize :: "jsstring \<Rightarrow> piece list" where
  "tokenize [] = []"
| "tokenize (c # cs) =
     (case match_at (c # cs) of
        None \<Rightarrow> Lit c # tokenize cs
      | Some m \<Rightarrow> Tok m # tokenize (mt_rest m))"
  by pat_completeness auto
termination
  by (relation "measure length") (auto dest: match_at_length)

text \<open>
  The replacer is a closure over the flag \<open>modified\<close>: it is given the flag and returns
  its replacement text with the new flag.
\<close>

type_synonym replacer = "rmatch \<Rightarrow> bool \<Rightarrow> jsstring \<times> bool"

fun replace_loop :: "replacer \<Rightarrow> piece list \<Rightarrow> jsstring \<times> bool \<Rightarrow> jsstring \<times> bool" where
  "replace_loop cb [] acc = acc"
| "replace_loop cb (Lit c # ps) (out, md) = replace_loop cb ps (out @ [c], md)"
| "replace_loop cb (Tok m # ps) (out, md) =
     (case cb m md of (r, md') \<Rightarrow> replace_loop cb ps (out @ r, md'))"

definition string_replace :: "replacer \<Rightarrow> jsstring \<Rightarrow> bool \<Rightarrow> jsstring \<times> bool" where
  "string_replace cb s md = replace_loop cb (tokenize s) ([], md)"

section \<open>Dates\<close>

text \<open>
  A moment is a local calendar day, counted in days from 1970-01-01, and a time of
  day in milliseconds. The calendar is the proleptic Gregorian one of the host's dates.
\<close>

record moment =
  local_day :: int
  local_ms :: nat

definition days_from_civil :: "int \<Rightarrow> int \<Rightarrow> int \<Rightarrow> int" where
  "days_from_civil y m d =
     (let y' = (if m \<le> 2 then y - 1 else y);
          era = y' div 400;
          yoe = y' - era * 400;
          doy = (153 * (if m > 2 then m - 3 else m + 9) + 2) div 5 + d - 1;
          doe = yoe * 365 + yoe div 4 - yoe div 100 + doy
      in era * 146097 + doe - 719468)"

definition civil_from_days :: "int \<Rightarrow> int \<times> int \<times> int" where
  "civil_from_days n =
     (let z = n + 719468;
          era = z div 146097;
          doe = z - era * 146097;
          yoe = (doe - doe div 1460 + doe div 36524 - doe div 146096) div 365;
          doy = doe - (365 * yoe + yoe div 4 - yoe div 100);
          mp = (5 * doy + 2) div 153;
          d = doy - (153 * mp + 2) div 5 + 1;
          m = (if mp < 10 then mp + 3 else mp - 9)
      in (yoe + era * 400 + (if m \<le> 2 then 1 else 0), m, d))"

text \<open>\<open>getDay\<close>: 0 is Sunday, 6 is Saturday; 1970-01-01 was a Thursday.\<close>

definition getDay :: "moment \<Rightarrow> int" where
  "getDay m = (local_day m + 4) mod 7"

text \<open>
  The setter \<open>day(n)\<close> of the date library adds \<open>n - getDay\<close> days, keeping the time of
  day: for \<open>n\<close> from 0 to 6 the result lies in the Sunday-to-Saturday week of the date.
\<close>

definition moment_day :: "moment \<Rightarrow> nat \<Rightarrow> moment" where
  "moment_day m n = m\<lparr>local_day := local_day m + (int n - getDay m)\<rparr>"

text \<open>ISO 8601 week of a day: the year and the week number of the Thursday of its
  Monday-to-Sunday week.\<close>

definition iso_week :: "int \<Rightarrow> int \<times> int" where
  "iso_week n =
     (let thursday = n - (n + 3) mod 7 + 3;
          y = fst (civil_from_days thursday)
      in (y, (thursday - days_from_civil y 1 1) div 7 + 1))"

text \<open>The text \<open>YYYY-MM-DD\<close> of a day, for the years 0 to 9999.\<close>

definition digit :: "int \<Rightarrow> jschar" where
  "digit n = of_int (48 + n mod 10)"

definition pad2 :: "int \<Rightarrow> jsstring" where
  "pad2 n = [digit (n div 10), digit n]"

definition pad4 :: "int \<Rightarrow> jsstring" where
  "pad4 n = [digit (n div 1000), digit (n div 100), digit (n div 10), digit n]"

definition iso_date :: "int \<Rightarrow> jsstring" where
  "iso_date n = (case civil_from_days n of
                   (y, m, d) \<Rightarrow> pad4 y @ js ''-'' @ pad2 m @ js ''-'' @ pad2 d)"


section \<open>The placeholder rewriter\<close>

text \<open>
  The formatting function of the date library, \<open>date.format(f)\<close>, is a parameter
  \<open>fmt\<close> of the model: every statement below holds for whatever it computes, and a
  statement about a particular format string says what it assumes of \<open>fmt\<close> there.
\<close>

type_synonym formatter = "moment \<Rightarrow> jsstring \<Rightarrow> jsstring"

text \<open>The options of the host's daily-notes plugin; a missing property is \<open>None\<close>.\<close>

record daily_options =
  opt_format :: "jsstring option"
  opt_folder :: "jsstring option"
  opt_template :: "jsstring option"

record internal_plugin =
  enabled :: bool
  options :: daily_options

text \<open>\<open>x || d\<close> on a string property: \<open>d\<close> when \<open>x\<close> is missing or empty.\<close>

definition or_default :: "jsstring option \<Rightarrow> jsstring \<Rightarrow> jsstring" where
  "or_default x d = (case x of None \<Rightarrow> d | Some s \<Rightarrow> if s = [] then d else s)"

definition getDailyNoteLink :: "formatter \<Rightarrow> internal_plugin option \<Rightarrow> moment \<Rightarrow> jsstring option" where
  "getDailyNoteLink fmt dailyNotesPlugin date =
     (case dailyNotesPlugin of
        None \<Rightarrow> None
      | Some p \<Rightarrow>
          if \<not> enabled p then None
          else (let settings = options p;
                    dailyFormat = or_default (opt_format settings) (js ''YYYY-MM-DD'');
                    dailyFolder = or_default (opt_folder settings) [];
                    dateString = fmt date dailyFormat
                in if dailyFolder \<noteq> [] then Some (dailyFolder @ js ''/'' @ dateString)
                   else Some dateString))"

text \<open>The replacer of \<open>replaceDatePlaceholders\<close> (main.ts).\<close>

definition placeholder :: "formatter \<Rightarrow> internal_plugin option \<Rightarrow> moment \<Rightarrow> replacer" where
  "placeholder fmt dailyNotesPlugin date m modified =
     (case indexOf days (toLowerCase (mt_dayName m)) of
        None \<Rightarrow> (mt_text m, modified)
      | Some dayIndex \<Rightarrow>
          (let targetDate = moment_day date dayIndex
           in if trim (mt_format m) = js ''daily-note''
              then (or_default (getDailyNoteLink fmt dailyNotesPlugin targetDate)
                      (fmt targetDate (js ''YYYY-MM-DD'')), True)
              else (fmt targetDate (mt_format m), True)))"

text \<open>The replacer written inline in \<open>openWeeklyNote\<close> of the older source file.\<close>

definition placeholder_inline :: "formatter \<Rightarrow> internal_plugin option \<Rightarrow> moment \<Rightarrow> replacer" where
  "placeholder_inline fmt dailyNotesPlugin date m modified =
     (case indexOf days (toLowerCase (mt_dayName m)) of
        Some dayIndex \<Rightarrow>
          (let targetDate = moment_day date dayIndex
           in if trim (mt_format m) = js ''daily-note''
              then (case dailyNotesPlugin of
                      None \<Rightarrow> (fmt targetDate (js ''YYYY-MM-DD''), True)
                    | Some p \<Rightarrow>
                        if enabled p
                        then (let settings = options p;
                                  dailyFormat = or_default (opt_format settings) (js ''YYYY-MM-DD'');
                                  dailyFolder = or_default (opt_folder settings) [];
                                  dateString = fmt targetDate dailyFormat
                              in if dailyFolder \<noteq> []
                                 then (dailyFolder @ js ''/'' @ dateString, True)
                                 else (dateString, True))
                        else (fmt targetDate (js ''YYYY-MM-DD''), True))
              else (fmt targetDate (mt_format m), True))
      | None \<Rightarrow> (mt_text m, True))"

section \<open>The host application\<close>

text \<open>
  The vault maps a path to what is there. \<open>create_error\<close> gives the paths at which
  the host refuses to create a file or a folder, with the text of the error thrown.
  The editor is the content of the active Markdown view, \<open>None\<close> when no such view is
  active. Notifications, opened files, calls of \<open>editor.setValue\<close>, calls of the
  template plugin and pending timers are logged in order. Console output is left out.
\<close>

datatype entry = TFile jsstring | TFolder

datatype task = InsertTemplate jsstring | ReplaceDatePlaceholders moment

record app =
  vault :: "jsstring \<rightharpoonup> entry"
  create_error :: "jsstring \<rightharpoonup> jsstring"
  notices :: "jsstring list"
  editor :: "jsstring option"
  setValue_calls :: "jsstring list"
  opened :: "jsstring list"
  created :: "jsstring list"
  dailyNotes :: "internal_plugin option"
  templates :: "bool option"
  inserted :: "jsstring list"
  timers :: "(nat \<times> task) list"

record WeeklyNotesSettings =
  folder :: jsstring
  template :: jsstring
  dateFormat :: jsstring

definition replaceDatePlaceholders :: "formatter \<Rightarrow> app \<Rightarrow> moment \<Rightarrow> app" where
  "replaceDatePlaceholders fmt a date =
     (case editor a of
        None \<Rightarrow> a
      | Some content \<Rightarrow>
          (case string_replace (placeholder fmt (dailyNotes a) date) content False of
             (content', modified) \<Rightarrow>
               if modified
               then a\<lparr>editor := Some content', setValue_calls := setValue_calls a @ [content']\<rparr>
               else a))"

text \<open>The timer body of the older source file, with its inline replacer.\<close>

definition replaceDatePlaceholders_inline :: "formatter \<Rightarrow> app \<Rightarrow> moment \<Rightarrow> app" where
  "replaceDatePlaceholders_inline fmt a date =
     (case editor a of
        None \<Rightarrow> a
      | Some content \<Rightarrow>
          (case string_replace (placeholder_inline fmt (dailyNotes a) date) content False of
             (content', modified) \<Rightarrow>
               if modified
               then a\<lparr>editor := Some content', setValue_calls := setValue_calls a @ [content']\<rparr>
               else a))"


subsection \<open>Opening the weekly note\<close>

text \<open>
  \<open>normalizePath\<close> of the host is the parameter \<open>np\<close>. \<open>vault.create\<close> and
  \<open>vault.createFolder\<close> throw where the host refuses and where something is at the
  path already; otherwise they add the entry.
\<close>

definition vault_create :: "app \<Rightarrow> jsstring \<Rightarrow> jsstring \<Rightarrow> jsstring + app" where
  "vault_create a path data =
     (case create_error a path of
        Some e \<Rightarrow> Inl e
      | None \<Rightarrow>
          if vault a path \<noteq> None then Inl (js ''File already exists.'')
          else Inr (a\<lparr>vault := (vault a)(path \<mapsto> TFile data),
                       created := created a @ [path]\<rparr>))"

definition vault_createFolder :: "app \<Rightarrow> jsstring \<Rightarrow> jsstring + app" where
  "vault_createFolder a path =
     (case create_error a path of
        Some e \<Rightarrow> Inl e
      | None \<Rightarrow>
          if vault a path \<noteq> None then Inl (js ''Folder already exists.'')
          else Inr (a\<lparr>vault := (vault a)(path \<mapsto> TFolder)\<rparr>))"

definition ensureFolderExists :: "(jsstring \<Rightarrow> jsstring) \<Rightarrow> app \<Rightarrow> jsstring \<Rightarrow> app" where
  "ensureFolderExists np a fld =
     (let normalizedFolder = np fld
      in if normalizedFolder = [] \<or> normalizedFolder = js ''/'' then a
         else if vault a normalizedFolder \<noteq> None then a
         else (case vault_createFolder a normalizedFolder of
                 Inl e \<Rightarrow> a
               | Inr a' \<Rightarrow> a'))"

text \<open>
  \<open>applyTemplate\<close>: the template is looked up at the configured path and then at the
  path with \<open>.md\<close> appended. \<open>resolve_weekly\<close> is that lookup; it returns the path found
  with the entry.
\<close>

definition resolve_weekly ::
  "(jsstring \<Rightarrow> jsstring) \<Rightarrow> app \<Rightarrow> jsstring \<Rightarrow> (jsstring \<times> entry) option" where
  "resolve_weekly np a tpl =
     (let templatePath = np tpl
      in case vault a templatePath of
           Some templateFile \<Rightarrow> Some (templatePath, templateFile)
         | None \<Rightarrow>
             (let templatePath = np (tpl @ js ''.md'')
              in map_option (Pair templatePath) (vault a templatePath)))"

definition applyTemplate ::
  "(jsstring \<Rightarrow> jsstring) \<Rightarrow> WeeklyNotesSettings \<Rightarrow> app \<Rightarrow> jsstring \<Rightarrow> moment \<Rightarrow> app" where
  "applyTemplate np settings a file date =
     (case resolve_weekly np a (template settings) of
        None \<Rightarrow> a\<lparr>notices := notices a @ [js ''Template file not found: '' @ template settings]\<rparr>
      | Some (templatePath, TFolder) \<Rightarrow> a
      | Some (templatePath, TFile content) \<Rightarrow>
          (let a1 = (if templates a = Some True
                     then a\<lparr>inserted := inserted a @ [templatePath]\<rparr>
                     else a\<lparr>vault := (vault a)(file \<mapsto> TFile content),
                            notices := notices a @
                              [js ''Core Templates plugin not enabled. Applied raw template.'']\<rparr>)
           in a1\<lparr>timers := timers a1 @ [(100, ReplaceDatePlaceholders date)]\<rparr>))"

definition openWeeklyNote ::
  "(jsstring \<Rightarrow> jsstring) \<Rightarrow> formatter \<Rightarrow> WeeklyNotesSettings \<Rightarrow> app \<Rightarrow> moment \<Rightarrow> app" where
  "openWeeklyNote np fmt settings a date =
     (let filename = fmt date (dateFormat settings);
          fld = folder settings;
          path = np (fld @ js ''/'' @ filename @ js ''.md'')
      in case vault a path of
           None \<Rightarrow>
             (let a1 = ensureFolderExists np a fld
              in case vault_create a1 path [] of
                   Inl error \<Rightarrow>
                     a1\<lparr>notices := notices a1 @ [js ''Failed to open weekly note: '' @ error]\<rparr>
                 | Inr a2 \<Rightarrow>
                     (let a3 = a2\<lparr>notices := notices a2 @ [js ''Created weekly note: '' @ filename]\<rparr>;
                          a4 = a3\<lparr>opened := opened a3 @ [path]\<rparr>
                      in if template settings \<noteq> [] then applyTemplate np settings a4 path date
                         else a4))
         | Some TFolder \<Rightarrow> a
         | Some (TFile content) \<Rightarrow> a\<lparr>opened := opened a @ [path]\<rparr>)"

subsection \<open>The daily-note auto-templater\<close>

text \<open>
  The file of a creation event. The strict parse of the date library,
  \<open>moment(name, format, true).isValid()\<close>, is the parameter \<open>parse\<close>.
\<close>

record tfile =
  file_path :: jsstring
  file_basename :: jsstring
  file_extension :: jsstring
  stat_size :: nat
  file_parent :: "jsstring option"

datatype abstract_file = File tfile | Folder jsstring

text \<open>The lookup of \<open>onFileCreate\<close>: the path with \<open>.md\<close> appended, then the path itself.\<close>

definition resolve_daily ::
  "(jsstring \<Rightarrow> jsstring) \<Rightarrow> app \<Rightarrow> jsstring \<Rightarrow> (jsstring \<times> entry) option" where
  "resolve_daily np a templatePath =
     (case vault a (np (templatePath @ js ''.md'')) of
        Some templateFile \<Rightarrow> Some (np (templatePath @ js ''.md''), templateFile)
      | None \<Rightarrow> map_option (Pair (np templatePath)) (vault a (np templatePath)))"

definition onFileCreate ::
  "(jsstring \<Rightarrow> jsstring) \<Rightarrow> (jsstring \<Rightarrow> jsstring \<Rightarrow> bool) \<Rightarrow> app \<Rightarrow> abstract_file \<Rightarrow> app" where
  "onFileCreate np parse a file =
     (case file of
        Folder p \<Rightarrow> a
      | File f \<Rightarrow>
          if file_extension f \<noteq> js ''md'' \<or> stat_size f > 0 then a
          else (case dailyNotes a of
                  None \<Rightarrow> a
                | Some dailyNotesPlugin \<Rightarrow>
                    if \<not> enabled dailyNotesPlugin then a
                    else (let settings = options dailyNotesPlugin;
                              dailyFormat = or_default (opt_format settings) (js ''YYYY-MM-DD'');
                              dailyFolder = or_default (opt_folder settings) [];
                              templatePath = or_default (opt_template settings) []
                          in if templatePath = [] then a
                             else if \<not> parse (file_basename f) dailyFormat then a
                             else if dailyFolder \<noteq> [] \<and>
                                     (case file_parent f of None \<Rightarrow> True
                                      | Some parent \<Rightarrow> parent \<noteq> np dailyFolder) then a
                             else (case resolve_daily np a templatePath of
                                     None \<Rightarrow> a
                                   | Some (p, TFolder) \<Rightarrow> a
                                   | Some (p, TFile content) \<Rightarrow>
                                       if templates a = Some True
                                       then a\<lparr>timers := timers a @ [(200, InsertTemplate p)]\<rparr>
                                       else a))))"

section \<open>Pieces of a document\<close>

text \<open>
  The text a piece comes from, and the text it becomes when \<open>r\<close> gives the replacement
  of a match.
\<close>

fun piece_src :: "piece \<Rightarrow> jsstring" where
  "piece_src (Lit c) = [c]"
| "piece_src (Tok m) = mt_text m"

fun piece_out :: "(rmatch \<Rightarrow> jsstring) \<Rightarrow> piece \<Rightarrow> jsstring" where
  "piece_out r (Lit c) = [c]"
| "piece_out r (Tok m) = r m"

text \<open>
  A piece of a text, seen as a piece of the longer text that continues with \<open>s\<close>: the
  rest recorded in a match grows by \<open>s\<close>.
\<close>

fun extend_piece :: "jsstring \<Rightarrow> piece \<Rightarrow> piece" where
  "extend_piece s (Lit c) = Lit c"
| "extend_piece s (Tok m) = Tok (m\<lparr>mt_rest := mt_rest m @ s\<rparr>)"

definition replacement :: "formatter \<Rightarrow> internal_plugin option \<Rightarrow> moment \<Rightarrow> rmatch \<Rightarrow> jsstring" where
  "replacement fmt dailyNotesPlugin date m = fst (placeholder fmt dailyNotesPlugin date m False)"

section \<open>Sample inputs\<close>

text \<open>
  An application state whose active editor shows \<open>content\<close>, and a formatting function
  that agrees with the date library on the two format strings the examples use:
  \<open>YYYY-MM-DD\<close>, and the empty escape \<open>[]\<close>, which formats to the empty string.
\<close>

definition sample_app :: "jsstring \<Rightarrow> internal_plugin option \<Rightarrow> app" where
  "sample_app content dn =
     \<lparr>vault = Map.empty, create_error = Map.empty, notices = [], editor = Some content,
      setValue_calls = [], opened = [], created = [], dailyNotes = dn, templates = Some True,
      inserted = [], timers = []\<rparr>"

definition sample_format :: formatter where
  "sample_format m f =
     (if f = js ''YYYY-MM-DD'' then iso_date (local_day m)
      else if f = js ''[]'' then [] else f)"

definition sample_daily :: "jsstring option \<Rightarrow> jsstring option \<Rightarrow> internal_plugin" where
  "sample_daily f d =
     \<lparr>enabled = True, options = \<lparr>opt_format = f, opt_folder = d, opt_template = None\<rparr>\<rparr>"

section \<open>The token shape as the specification words it\<close>

text \<open>
  The specification describes a token as \<open>!{{weekday:spec}}\<close>, the weekday one of
  the seven names in any letter case and the spec one or more characters, none of them
  a closing brace. \<open>spec_token t\<close> says that \<open>t\<close> is such a token.
\<close>

definition spec_token :: "jsstring \<Rightarrow> bool" where
  "spec_token t =
     list_ex (\<lambda>d. length d + 6 \<le> length t \<and>
               (let w = take (length d) (drop 3 t);
                    spec = take (length t - length d - 6) (drop (length d + 4) t)
                in t = js ''!{{'' @ w @ js '':'' @ spec @ js ''}}'' \<and> toLowerCase w = d
                   \<and> spec \<noteq> [] \<and> 0x7D \<notin> set spec)) days"

section \<open>Template lookup as the specification words it\<close>

text \<open>
  The specification describes one lookup for both templates: the configured path as
  it is, then the path with \<open>.md\<close> appended.
\<close>

definition resolve_literal_first ::
  "(jsstring \<Rightarrow> jsstring) \<Rightarrow> app \<Rightarrow> jsstring \<Rightarrow> (jsstring \<times> entry) option" where
  "resolve_literal_first np a t =
     (case vault a (np t) of
        Some e \<Rightarrow> Some (np t, e)
      | None \<Rightarrow> map_option (Pair (np (t @ js ''.md''))) (vault a (np (t @ js ''.md''))))"

section \<open>The path of the weekly note\<close>

text \<open>The path that \<open>openWeeklyNote\<close> computes from the settings and the date.\<close>

definition weekly_path :: "(jsstring \<Rightarrow> jsstring) \<Rightarrow> formatter \<Rightarrow> WeeklyNotesSettings \<Rightarrow> moment \<Rightarrow> jsstring" where
  "weekly_path np fmt settings date =
     np (folder settings @ js ''/'' @ fmt date (dateFormat settings) @ js ''.md'')"

section \<open>Sample vaults and files\<close>

text \<open>
  Settings with the folder \<open>Weekly\<close>; a strict parse that accepts the name
  \<open>2024-03-08\<close> under the format \<open>YYYY-MM-DD\<close>; an empty note of that name in the
  folder \<open>Daily\<close>; and a host whose daily-notes plugin is enabled with the folder
  \<open>Daily\<close> and the template \<open>Templates/Daily\<close>. The sample paths are normalized, so
  the samples take the identity for \<open>normalizePath\<close>.
\<close>

definition sample_settings :: "jsstring \<Rightarrow> WeeklyNotesSettings" where
  "sample_settings t = \<lparr>folder = js ''Weekly'', template = t, dateFormat = js ''YYYY-MM-DD''\<rparr>"

definition sample_parse :: "jsstring \<Rightarrow> jsstring \<Rightarrow> bool" where
  "sample_parse name f = (f = js ''YYYY-MM-DD'' \<and> name = js ''2024-03-08'')"

definition sample_file :: tfile where
  "sample_file = \<lparr>file_path = js ''Daily/2024-03-08.md'', file_basename = js ''2024-03-08'',
                   file_extension = js ''md'', stat_size = 0, file_parent = Some (js ''Daily'')\<rparr>"

definition sample_host :: "(jsstring \<rightharpoonup> entry) \<Rightarrow> bool \<Rightarrow> app" where
  "sample_host v t =
     \<lparr>vault = v, create_error = Map.empty, notices = [], editor = None,
      setValue_calls = [], opened = [], created = [],
      dailyNotes = Some \<lparr>enabled = True,
                          options = \<lparr>opt_format = None, opt_folder = Some (js ''Daily''),
                                     opt_template = Some (js ''Templates/Daily'')\<rparr>\<rparr>,
      templates = Some t, inserted = [], timers = []\<rparr>"

definition sample_vault :: "jsstring \<rightharpoonup> entry" where
  "sample_vault = [js ''Templates/Daily'' \<mapsto> TFolder,
                   js ''Templates/Daily.md'' \<mapsto> TFile (js ''!{{friday:daily-note}}'')]"

section \<open>What the pattern matches\<close>

lemma canonicalize_fix:
  "\<not> (0x41 \<le> k \<and> k \<le> 0x5A) \<Longrightarrow> \<not> (0x61 \<le> k \<and> k \<le> 0x7A) \<Longrightarrow> canonicalize c = k \<longleftrightarrow> c = k"
  unfolding canonicalize_def
  by (auto simp: word_le_nat_alt unat_sub_if_size word_size split: if_splits)

lemma lower_of_canon:
  "canonicalize c = canonicalize p \<Longrightarrow> 0x61 \<le> p \<Longrightarrow> p \<le> 0x7A \<Longrightarrow>
   (if 0x41 \<le> c \<and> c \<le> 0x5A then c + 0x20 else c) = p"
  unfolding canonicalize_def
  apply (auto split: if_splits)
  apply unat_arith+
  done

lemma canon_of_lower:
  "(if 0x41 \<le> c \<and> c \<le> 0x5A then c + 0x20 else c) = p \<Longrightarrow> 0x61 \<le> p \<Longrightarrow> p \<le> 0x7A \<Longrightarrow>
   canonicalize c = canonicalize p"
  unfolding canonicalize_def
  apply (auto split: if_splits)
  apply unat_arith+
  done

lemma match_lit_Nil: "match_lit [] s = Some s"
  by (simp add: match_lit_def)

lemma match_lit_Cons:
  "match_lit (k # p) s =
     (case s of [] \<Rightarrow> None
      | c # cs \<Rightarrow> if canonicalize c = canonicalize k then match_lit p cs else None)"
  by (cases s) (auto simp: match_lit_def)

lemma match_lit_exact:
  "\<forall>k\<in>set p. \<not> (0x41 \<le> k \<and> k \<le> 0x5A) \<and> \<not> (0x61 \<le> k \<and> k \<le> 0x7A) \<Longrightarrow>
   match_lit p s = Some r \<longleftrightarrow> s = p @ r"
proof (induction p arbitrary: s)
  case Nil
  then show ?case by (auto simp: match_lit_Nil)
next
  case (Cons k p)
  then have k: "canonicalize k = k"
    by (simp add: canonicalize_def)
  from Cons.prems have kfix: "\<And>c. canonicalize c = k \<longleftrightarrow> c = k"
    by (intro canonicalize_fix) auto
  show ?case
  proof (cases s)
    case Nil
    then show ?thesis by (simp add: match_lit_Cons)
  next
    case (Cons c cs)
    with Cons.IH [of cs] Cons.prems show ?thesis
      by (auto simp: match_lit_Cons k kfix)
  qed
qed

lemma match_open: "match_lit (js ''!{{'') s = Some r \<longleftrightarrow> s = js ''!{{'' @ r"
  by (rule match_lit_exact) (simp add: js_def)

lemma match_colon: "match_lit (js '':'') s = Some r \<longleftrightarrow> s = js '':'' @ r"
  by (rule match_lit_exact) (simp add: js_def)

lemma m_close_iff: "m_close s = Some r \<longleftrightarrow> s = js ''}}'' @ r"
  unfolding m_close_def by (rule match_lit_exact) (simp add: js_def)

lemma m_star_complete:
  "0x7D \<notin> set spec \<Longrightarrow> m_star acc (spec @ js ''}}'' @ r) = Some (acc @ spec, r)"
proof (induction spec arbitrary: acc)
  case Nil
  have "m_close (js ''}}'' @ r) = Some r" by (simp add: m_close_iff)
  then show ?case by (simp add: js_def)
next
  case (Cons c spec)
  then show ?case by simp
qed

lemma m_star_sound:
  "m_star acc s = Some (f, r) \<Longrightarrow> \<exists>spec. f = acc @ spec \<and> s = spec @ js ''}}'' @ r \<and> 0x7D \<notin> set spec"
proof (induction s arbitrary: acc)
  case Nil
  then show ?case by (simp add: m_close_iff)
next
  case (Cons c cs)
  show ?case
  proof (cases "c = 0x7D")
    case True
    with Cons.prems have "c # cs = js ''}}'' @ r" "f = acc"
      by (auto simp: m_close_iff)
    then show ?thesis by auto
  next
    case False
    have "m_close (c # cs) = None"
    proof (cases "m_close (c # cs)")
      case (Some r')
      then have "c # cs = js ''}}'' @ r'" by (simp add: m_close_iff)
      with False show ?thesis by (simp add: js_def)
    qed simp
    with Cons.prems False have "m_star (acc @ [c]) cs = Some (f, r)"
      by (auto split: option.splits)
    from Cons.IH [OF this] obtain spec where
      "f = (acc @ [c]) @ spec" "cs = spec @ js ''}}'' @ r" "0x7D \<notin> set spec" by blast
    with False show ?thesis
      by (intro exI [of _ "c # spec"]) auto
  qed
qed

lemma m_colon_iff:
  "m_colon s = Some (f, r) \<longleftrightarrow>
     (\<exists>c spec. s = js '':'' @ c # spec @ js ''}}'' @ r \<and> f = c # spec
        \<and> \<not> is_line_terminator c \<and> 0x7D \<notin> set spec)"
proof
  assume "m_colon s = Some (f, r)"
  then obtain s1 where s1: "s = js '':'' @ s1" and sp: "m_spec s1 = Some (f, r)"
    by (auto simp: m_colon_def match_colon split: option.splits)
  from sp obtain c cs where cs: "s1 = c # cs" "\<not> is_line_terminator c" "m_star [c] cs = Some (f, r)"
    by (auto simp: m_spec_def split: list.splits if_splits)
  from m_star_sound [OF cs(3)] cs s1 show
    "\<exists>c spec. s = js '':'' @ c # spec @ js ''}}'' @ r \<and> f = c # spec
        \<and> \<not> is_line_terminator c \<and> 0x7D \<notin> set spec"
    by auto
next
  assume "\<exists>c spec. s = js '':'' @ c # spec @ js ''}}'' @ r \<and> f = c # spec
        \<and> \<not> is_line_terminator c \<and> 0x7D \<notin> set spec"
  then obtain c spec where *: "s = js '':'' @ c # spec @ js ''}}'' @ r" "f = c # spec"
    "\<not> is_line_terminator c" "0x7D \<notin> set spec" by blast
  have "match_lit (js '':'') s = Some (c # spec @ js ''}}'' @ r)"
    using * by (simp add: match_colon)
  moreover have "m_spec (c # spec @ js ''}}'' @ r) = Some (f, r)"
    using * m_star_complete [of spec "[c]" r] by (simp add: m_spec_def)
  ultimately show "m_colon s = Some (f, r)"
    by (simp add: m_colon_def)
qed

lemma m_alt_sound:
  "m_alt ds s = Some (d, f, rest) \<Longrightarrow>
   \<exists>d0 r. d0 \<in> set ds \<and> match_lit d0 s = Some r \<and> m_colon r = Some (f, rest) \<and> d = take (length d0) s"
proof (induction ds)
  case Nil
  then show ?case by simp
next
  case (Cons a ds)
  show ?case
  proof (cases "\<exists>r. match_lit a s = Some r \<and> m_colon r \<noteq> None")
    case True
    then obtain r q where "match_lit a s = Some r" "m_colon r = Some q" by auto
    with Cons.prems show ?thesis by (cases q) auto
  next
    case False
    with Cons.prems have "m_alt ds s = Some (d, f, rest)"
      by (auto split: option.splits)
    from Cons.IH [OF this] show ?thesis by auto
  qed
qed

lemma match_lit_prefix:
  assumes "match_lit p s = Some r"
  shows "prefix (map canonicalize p) (map canonicalize s)"
proof -
  from assms have "map canonicalize (take (length p) s) = map canonicalize p"
    by (auto simp: match_lit_def split: if_splits)
  then have "map canonicalize s = map canonicalize p @ map canonicalize (drop (length p) s)"
    by (metis append_take_drop_id map_append)
  then show ?thesis by (simp add: prefix_def)
qed

lemma days_prefix_free:
  "\<forall>d\<in>set days. \<forall>d'\<in>set days. prefix (map canonicalize d) (map canonicalize d') \<longrightarrow> d = d'"
  by (simp add: days_def js_def canonicalize_def)

lemma days_unique:
  assumes "d \<in> set days" "d' \<in> set days" "match_lit d s = Some r" "match_lit d' s = Some r'"
  shows "d = d'"
proof -
  have "prefix (map canonicalize d) (map canonicalize s)" "prefix (map canonicalize d') (map canonicalize s)"
    using assms by (auto dest: match_lit_prefix)
  then have "prefix (map canonicalize d) (map canonicalize d') \<or> prefix (map canonicalize d') (map canonicalize d)"
    by (rule prefix_same_cases)
  with assms(1,2) days_prefix_free show ?thesis by blast
qed

lemma m_alt_complete:
  assumes "d0 \<in> set ds" "set ds \<subseteq> set days" "match_lit d0 s = Some r" "m_colon r = Some (f, rest)"
  shows "m_alt ds s = Some (take (length d0) s, f, rest)"
  using assms(1,2)
proof (induction ds)
  case Nil
  then show ?case by simp
next
  case (Cons a ds)
  show ?case
  proof (cases "a = d0")
    case True
    with assms(3,4) show ?thesis by simp
  next
    case False
    have "match_lit a s = None"
    proof (cases "match_lit a s")
      case (Some r')
      with days_unique [of a d0 s r' r] Cons.prems assms(3) False show ?thesis by auto
    qed simp
    with Cons False show ?thesis by auto
  qed
qed

lemma toLowerCase_Cons:
  "toLowerCase (c # cs) = (if 0x41 \<le> c \<and> c \<le> 0x5A then c + 0x20 else c) # toLowerCase cs"
  by (simp add: toLowerCase_def)

lemma match_lit_lower:
  "\<forall>k\<in>set p. 0x61 \<le> k \<and> k \<le> 0x7A \<Longrightarrow>
   match_lit p s = Some r \<longleftrightarrow> (\<exists>w. s = w @ r \<and> toLowerCase w = p)"
proof (induction p arbitrary: s)
  case Nil
  then show ?case by (auto simp: match_lit_Nil toLowerCase_def)
next
  case (Cons k p)
  then have k: "0x61 \<le> k" "k \<le> 0x7A" by auto
  show ?case
  proof (cases s)
    case Nil
    then show ?thesis by (auto simp: match_lit_Cons toLowerCase_def)
  next
    case s: (Cons c cs)
    have head: "canonicalize c = canonicalize k \<longleftrightarrow>
                (if 0x41 \<le> c \<and> c \<le> 0x5A then c + 0x20 else c) = k"
      using lower_of_canon [OF _ k] canon_of_lower [OF _ k] by blast
    have tail: "match_lit p cs = Some r \<longleftrightarrow> (\<exists>w. cs = w @ r \<and> toLowerCase w = p)"
      using Cons.IH [of cs] Cons.prems by simp
    show ?thesis
    proof
      assume "match_lit (k # p) s = Some r"
      with s head tail obtain w where
        "(if 0x41 \<le> c \<and> c \<le> 0x5A then c + 0x20 else c) = k" "cs = w @ r" "toLowerCase w = p"
        by (auto simp: match_lit_Cons split: if_splits)
      with s have "s = (c # w) @ r \<and> toLowerCase (c # w) = k # p"
        by (simp add: toLowerCase_Cons)
      then show "\<exists>w. s = w @ r \<and> toLowerCase w = k # p" by blast
    next
      assume "\<exists>w. s = w @ r \<and> toLowerCase w = k # p"
      then obtain w where w: "s = w @ r" "toLowerCase w = k # p" by blast
      then obtain c' w' where w': "w = c' # w'" by (cases w) (auto simp: toLowerCase_def)
      with w s have "c' = c" "cs = w' @ r" "toLowerCase w' = p"
        "(if 0x41 \<le> c \<and> c \<le> 0x5A then c + 0x20 else c) = k"
        by (auto simp: toLowerCase_Cons)
      with s head tail show "match_lit (k # p) s = Some r"
        by (auto simp: match_lit_Cons)
    qed
  qed
qed

lemma days_lowercase: "\<forall>d\<in>set days. \<forall>k\<in>set d. 0x61 \<le> k \<and> k \<le> 0x7A"
  by (simp add: days_def js_def)

lemma match_day:
  "d \<in> set days \<Longrightarrow> match_lit d s = Some r \<longleftrightarrow> (\<exists>w. s = w @ r \<and> toLowerCase w = d)"
  using days_lowercase by (intro match_lit_lower) blast

lemma length_toLowerCase: "length (toLowerCase w) = length w"
  by (simp add: toLowerCase_def)

lemma match_at_iff:
  "match_at s = Some m \<longleftrightarrow>
     (\<exists>w c spec rest.
        s = js ''!{{'' @ w @ js '':'' @ c # spec @ js ''}}'' @ rest
        \<and> toLowerCase w \<in> set days \<and> \<not> is_line_terminator c \<and> 0x7D \<notin> set spec
        \<and> m = \<lparr>mt_text = js ''!{{'' @ w @ js '':'' @ c # spec @ js ''}}'', mt_dayName = w,
                 mt_format = c # spec, mt_rest = rest\<rparr>)"
  (is "?L \<longleftrightarrow> ?R")
proof
  assume ?L
  then obtain r0 d f rest where r0: "s = js ''!{{'' @ r0" and alt: "m_alt days r0 = Some (d, f, rest)"
    and m: "m = \<lparr>mt_text = take (length s - length rest) s, mt_dayName = d,
                   mt_format = f, mt_rest = rest\<rparr>"
    by (auto simp: match_at_def match_open split: option.splits)
  from m_alt_sound [OF alt] obtain d0 r1 where d0: "d0 \<in> set days" "match_lit d0 r0 = Some r1"
    "m_colon r1 = Some (f, rest)" "d = take (length d0) r0" by blast
  from d0(1,2) obtain w where w: "r0 = w @ r1" "toLowerCase w = d0"
    by (auto simp: match_day)
  from d0(3) obtain c spec where c: "r1 = js '':'' @ c # spec @ js ''}}'' @ rest" "f = c # spec"
    "\<not> is_line_terminator c" "0x7D \<notin> set spec"
    by (auto simp: m_colon_iff)
  have "length d0 = length w" using w(2) length_toLowerCase [of w] by simp
  with d0(4) w(1) have dw: "d = w" by simp
  have s: "s = js ''!{{'' @ w @ js '':'' @ c # spec @ js ''}}'' @ rest"
    using r0 w(1) c(1) by simp
  have "take (length s - length rest) s = js ''!{{'' @ w @ js '':'' @ c # spec @ js ''}}''"
    by (subst (2) s, subst s) simp
  with m dw c(2) have "m = \<lparr>mt_text = js ''!{{'' @ w @ js '':'' @ c # spec @ js ''}}'',
      mt_dayName = w, mt_format = c # spec, mt_rest = rest\<rparr>" by simp
  with s w(2) d0(1) c(3,4) show ?R by blast
next
  assume ?R
  then obtain w c spec rest where s: "s = js ''!{{'' @ w @ js '':'' @ c # spec @ js ''}}'' @ rest"
    and w: "toLowerCase w \<in> set days" and c: "\<not> is_line_terminator c" "0x7D \<notin> set spec"
    and m: "m = \<lparr>mt_text = js ''!{{'' @ w @ js '':'' @ c # spec @ js ''}}'', mt_dayName = w,
                 mt_format = c # spec, mt_rest = rest\<rparr>" by blast
  let ?r0 = "w @ js '':'' @ c # spec @ js ''}}'' @ rest"
  let ?r1 = "js '':'' @ c # spec @ js ''}}'' @ rest"
  have 1: "match_lit (js ''!{{'') s = Some ?r0" using s by (simp add: match_open)
  have 2: "match_lit (toLowerCase w) ?r0 = Some ?r1"
    using w by (auto simp: match_day)
  have 3: "m_colon ?r1 = Some (c # spec, rest)"
    using c by (auto simp: m_colon_iff)
  have "m_alt days ?r0 = Some (take (length (toLowerCase w)) ?r0, c # spec, rest)"
    by (rule m_alt_complete [OF w _ 2 3]) simp
  then have 4: "m_alt days ?r0 = Some (w, c # spec, rest)"
    by (simp add: length_toLowerCase)
  have "take (length s - length rest) s = js ''!{{'' @ w @ js '':'' @ c # spec @ js ''}}''"
    by (subst (2) s, subst s) simp
  with 1 4 m show ?L by (simp add: match_at_def)
qed

lemma match_at_text:
  "match_at s = Some m \<Longrightarrow> s = mt_text m @ mt_rest m"
  by (auto simp: match_at_iff)

lemma indexOf_Some:
  "x \<in> set xs \<Longrightarrow> \<exists>i<length xs. indexOf xs x = Some i \<and> xs ! i = x"
  by (induction xs) auto

lemma indexOf_None: "indexOf xs x = None \<longleftrightarrow> x \<notin> set xs"
  by (induction xs) auto

lemma match_at_dayIndex:
  "match_at s = Some m \<Longrightarrow> \<exists>i<7. indexOf days (toLowerCase (mt_dayName m)) = Some i"
proof -
  assume "match_at s = Some m"
  then have "toLowerCase (mt_dayName m) \<in> set days" by (auto simp: match_at_iff)
  from indexOf_Some [OF this] obtain i where
    "i < length days" "indexOf days (toLowerCase (mt_dayName m)) = Some i" by blast
  moreover have "length days = 7" by (simp add: days_def)
  ultimately show ?thesis by auto
qed

section \<open>The scan and the replacement loop\<close>

lemma tokenize_src: "concat (map piece_src (tokenize s)) = s"
proof (induction s rule: tokenize.induct)
  case 1
  then show ?case by simp
next
  case (2 c cs)
  show ?case
  proof (cases "match_at (c # cs)")
    case None
    with 2 show ?thesis by simp
  next
    case (Some m)
    then have "tokenize (c # cs) = Tok m # tokenize (mt_rest m)" by simp
    moreover have "concat (map piece_src (tokenize (mt_rest m))) = mt_rest m"
      using 2(2) [OF Some] .
    moreover have "c # cs = mt_text m @ mt_rest m"
      using match_at_text [OF Some] .
    ultimately show ?thesis by simp
  qed
qed

lemma tokenize_tokens:
  "Tok m \<in> set (tokenize s) \<Longrightarrow> match_at (mt_text m @ mt_rest m) = Some m"
proof (induction s rule: tokenize.induct)
  case 1
  then show ?case by simp
next
  case (2 c cs)
  show ?case
  proof (cases "match_at (c # cs)")
    case None
    with 2 show ?thesis by simp
  next
    case (Some m')
    then have "tokenize (c # cs) = Tok m' # tokenize (mt_rest m')" by simp
    with 2(3) have "m = m' \<or> Tok m \<in> set (tokenize (mt_rest m'))" by auto
    then show ?thesis
    proof
      assume "m = m'"
      with Some match_at_text [OF Some] show ?thesis by simp
    next
      assume "Tok m \<in> set (tokenize (mt_rest m'))"
      then show ?thesis by (rule 2(2) [OF Some])
    qed
  qed
qed

lemma tokenize_no_match:
  "(\<forall>i<length s. match_at (drop i s) = None) \<Longrightarrow> tokenize s = map Lit s"
proof (induction s)
  case Nil
  then show ?case by simp
next
  case (Cons c cs)
  from Cons.prems have "match_at (drop 0 (c # cs)) = None" by blast
  then have head: "match_at (c # cs) = None" by simp
  have "\<forall>i<length cs. match_at (drop i cs) = None"
  proof (intro allI impI)
    fix i assume "i < length cs"
    with Cons.prems have "match_at (drop (Suc i) (c # cs)) = None" by auto
    then show "match_at (drop i cs) = None" by simp
  qed
  with Cons.IH head show ?case by simp
qed

lemma replace_loop_out:
  assumes "\<And>m md. Tok m \<in> set ps \<Longrightarrow> fst (cb m md) = r m"
  shows "fst (replace_loop cb ps (out, md)) = out @ concat (map (piece_out r) ps)"
  using assms
proof (induction ps arbitrary: out md)
  case Nil
  then show ?case by simp
next
  case (Cons p ps)
  show ?case
  proof (cases p)
    case (Lit c)
    with Cons show ?thesis by simp
  next
    case (Tok m)
    obtain t md' where cb: "cb m md = (t, md')" by (cases "cb m md")
    with Cons.prems [of m md] Tok have "t = r m" by simp
    with Cons cb Tok show ?thesis by simp
  qed
qed

lemma replace_loop_flag:
  assumes "\<And>m md. Tok m \<in> set ps \<Longrightarrow> snd (cb m md) = True"
  shows "snd (replace_loop cb ps (out, md)) = (md \<or> (\<exists>m. Tok m \<in> set ps))"
  using assms
proof (induction ps arbitrary: out md)
  case Nil
  then show ?case by simp
next
  case (Cons p ps)
  show ?case
  proof (cases p)
    case (Lit c)
    with Cons show ?thesis by simp
  next
    case (Tok m)
    obtain t md' where cb: "cb m md = (t, md')" by (cases "cb m md")
    with Cons.prems [of m md] Tok have "md' = True" by simp
    with Cons cb Tok show ?thesis by auto
  qed
qed

lemma replace_loop_cong:
  assumes "\<And>m md. Tok m \<in> set ps \<Longrightarrow> cb m md = cb' m md"
  shows "replace_loop cb ps acc = replace_loop cb' ps acc"
  using assms
proof (induction ps arbitrary: acc)
  case Nil
  then show ?case by simp
next
  case (Cons p ps)
  obtain out md where acc: "acc = (out, md)" by (cases acc)
  show ?case
  proof (cases p)
    case (Lit c)
    with Cons acc show ?thesis by simp
  next
    case (Tok m)
    with Cons acc show ?thesis by (simp split: prod.splits)
  qed
qed

lemma placeholder_fst:
  "fst (placeholder fmt dn date m md) = replacement fmt dn date m"
  by (simp add: placeholder_def replacement_def Let_def split: option.splits)

lemma placeholder_snd:
  "match_at s = Some m \<Longrightarrow> snd (placeholder fmt dn date m md) = True"
  using match_at_dayIndex [of s m]
  by (auto simp: placeholder_def Let_def split: option.splits)

lemma string_replace_out:
  "fst (string_replace (placeholder fmt dn date) s md)
     = concat (map (piece_out (replacement fmt dn date)) (tokenize s))"
  unfolding string_replace_def
  by (subst replace_loop_out [where r = "replacement fmt dn date"]) (simp_all add: placeholder_fst)

lemma string_replace_flag:
  "snd (string_replace (placeholder fmt dn date) s md) = (md \<or> (\<exists>m. Tok m \<in> set (tokenize s)))"
  unfolding string_replace_def
  by (rule replace_loop_flag) (auto dest!: tokenize_tokens simp: placeholder_snd)

lemma no_tokens_out:
  "\<not> (\<exists>m. Tok m \<in> set ps) \<Longrightarrow> concat (map (piece_out r) ps) = concat (map piece_src ps)"
proof (induction ps)
  case Nil
  then show ?case by simp
next
  case (Cons p ps)
  then show ?case by (cases p) auto
qed

section \<open>The two replacers on a token\<close>

lemma placeholder_inline_eq:
  assumes m: "match_at s = Some m"
    and hyp: "\<forall>p. dn = Some p \<and> enabled p \<and> or_default (opt_folder (options p)) [] = [] \<longrightarrow>
            (\<forall>i<7. fmt (moment_day date i)
                      (or_default (opt_format (options p)) (js ''YYYY-MM-DD'')) \<noteq> [])"
  shows "placeholder_inline fmt dn date m md = placeholder fmt dn date m md"
proof -
  from match_at_dayIndex [OF m] obtain i where i: "i < 7"
    "indexOf days (toLowerCase (mt_dayName m)) = Some i" by blast
  show ?thesis
  proof (cases dn)
    case None
    with i show ?thesis
      by (simp add: placeholder_inline_def placeholder_def getDailyNoteLink_def or_default_def
          Let_def)
  next
    case (Some p)
    show ?thesis
    proof (cases "enabled p \<and> or_default (opt_folder (options p)) [] = []")
      case True
      with hyp Some i(1) have
        "fmt (moment_day date i) (or_default (opt_format (options p)) (js ''YYYY-MM-DD'')) \<noteq> []"
        by blast
      with True Some i(2) show ?thesis
        by (simp add: placeholder_inline_def placeholder_def getDailyNoteLink_def Let_def)
           (simp add: or_default_def)
    next
      case False
      with Some i(2) show ?thesis
        by (auto simp: placeholder_inline_def placeholder_def getDailyNoteLink_def Let_def)
           (simp_all add: or_default_def)
    qed
  qed
qed

lemma iso_date_nonempty: "iso_date n \<noteq> []"
  by (simp add: iso_date_def pad4_def split: prod.splits)

section \<open>Tokens at the head of a document, and the days of a week\<close>

lemma replace_loop_acc:
  "replace_loop cb ps (out, md)
     = (out @ fst (replace_loop cb ps ([], md)), snd (replace_loop cb ps ([], md)))"
proof (induction ps arbitrary: out md)
  case Nil
  then show ?case by simp
next
  case (Cons p ps)
  show ?case
  proof (cases p)
    case (Lit c)
    show ?thesis
      using Cons [of "out @ [c]" md] Cons [of "[c]" md] Lit by simp
  next
    case (Tok m)
    obtain r md' where cb: "cb m md = (r, md')" by (cases "cb m md")
    show ?thesis
      using Cons [of "out @ r" md'] Cons [of r md'] Tok cb by simp
  qed
qed

lemma tokenize_token:
  assumes "match_at s = Some m"
  shows "tokenize s = Tok m # tokenize (mt_rest m)"
proof -
  from match_at_length [OF assms] obtain c cs where "s = c # cs" by (cases s) auto
  with assms show ?thesis by simp
qed

lemma string_replace_token:
  assumes "match_at s = Some m" and "cb m md = (r, md')"
  shows "string_replace cb s md
           = (r @ fst (string_replace cb (mt_rest m) md'), snd (string_replace cb (mt_rest m) md'))"
  using replace_loop_acc [of cb "tokenize (mt_rest m)" r md'] assms(2)
  by (simp add: string_replace_def tokenize_token [OF assms(1)])

lemma days_from_civil_2024_1_1: "days_from_civil 2024 1 1 = 19723"
  by code_simp

lemma iso_week_samples:
  "iso_week 19786 = (2024, 10)" "iso_week 19787 = (2024, 10)" "iso_week 19788 = (2024, 10)"
  "iso_week 19789 = (2024, 10)" "iso_week 19790 = (2024, 10)" "iso_week 19791 = (2024, 10)"
  "iso_week 19792 = (2024, 10)"
  by code_simp+

lemma week_10_days:
  "19786 \<le> n \<and> n \<le> 19792 \<longleftrightarrow>
   n = 19786 \<or> n = 19787 \<or> n = 19788 \<or> n = 19789 \<or> n = 19790 \<or> n = 19791 \<or> n = (19792::int)"
  by arith

lemma iso_week_2024_10: "iso_week n = (2024, 10) \<longleftrightarrow> 19786 \<le> n \<and> n \<le> 19792"
proof
  assume "iso_week n = (2024, 10)"
  then have "(n - (n + 3) mod 7 + 3 - 19723) div 7 + 1 = 10"
    by (auto simp: iso_week_def Let_def days_from_civil_2024_1_1)
  moreover have "n - (n + 3) mod 7 + 3 = 7 * ((n + 3) div 7)"
    by (simp add: algebra_simps minus_mod_eq_mult_div [symmetric])
  ultimately have "(7 * ((n + 3) div 7) - 19723) div 7 = 9" by simp
  then have "(n + 3) div 7 = 2827" by arith
  then show "19786 \<le> n \<and> n \<le> 19792" by arith
next
  assume "19786 \<le> n \<and> n \<le> 19792"
  then show "iso_week n = (2024, 10)"
    unfolding week_10_days using iso_week_samples by blast
qed

lemma monday_of_week_10:
  assumes "19786 \<le> local_day date" "local_day date \<le> 19792"
  shows "local_day (moment_day date 1) = (if getDay date = 0 then 19793 else 19786)"
proof -
  from assms have "local_day date = 19786 \<or> local_day date = 19787 \<or> local_day date = 19788
      \<or> local_day date = 19789 \<or> local_day date = 19790 \<or> local_day date = 19791
      \<or> local_day date = 19792"
    using week_10_days [of "local_day date"] by blast
  then show ?thesis
    by (elim disjE) (simp_all add: moment_day_def getDay_def)
qed

lemma iso_date_samples:
  "iso_date 19786 = js ''2024-03-04''" "iso_date 19793 = js ''2024-03-11''"
  "fst (civil_from_days 19786) = 2024" "fst (civil_from_days 19793) = 2024"
  by code_simp+

lemma monday_index: "indexOf days (js ''monday'') = Some 1"
  by code_simp

lemma ymd_not_keyword: "trim (js ''YYYY-MM-DD'') \<noteq> js ''daily-note''"
  by code_simp

lemma getDay_moment_day: "n < 7 \<Longrightarrow> getDay (moment_day date n) = int n"
proof -
  assume n: "n < 7"
  define q r where "q = (local_day date + 4) div 7" and "r = (local_day date + 4) mod 7"
  have "7 * q + r = local_day date + 4"
    unfolding q_def r_def by (rule mult_div_mod_eq)
  then have eq: "local_day date + (int n - r) + 4 = 7 * q + int n" by linarith
  have "getDay (moment_day date n) = (local_day date + (int n - r) + 4) mod 7"
    by (simp add: moment_day_def getDay_def r_def)
  also have "\<dots> = (7 * q + int n) mod 7" by (simp only: eq)
  also have "\<dots> = int n" using n by simp
  finally show ?thesis .
qed

lemma friday_index: "indexOf days (js ''friday'') = Some 5"
  by code_simp

lemma daily_note_replacer:
  assumes "toLowerCase (mt_dayName m) = js ''friday''" and "trim (mt_format m) = js ''daily-note''"
  shows "placeholder fmt dn date m md =
           (or_default (getDailyNoteLink fmt dn (moment_day date 5))
              (fmt (moment_day date 5) (js ''YYYY-MM-DD'')), True)"
  using assms by (simp add: placeholder_def friday_index Let_def)

lemma friday_token:
  "match_at (js ''!{{friday:daily-note}}'' @ rest) =
     Some \<lparr>mt_text = js ''!{{friday:daily-note}}'', mt_dayName = js ''friday'',
           mt_format = js ''daily-note'', mt_rest = rest\<rparr>"
proof -
  have "match_at (js ''!{{'' @ js ''friday'' @ js '':'' @ 0x64 # js ''aily-note'' @ js ''}}'' @ rest)
          = Some \<lparr>mt_text = js ''!{{'' @ js ''friday'' @ js '':'' @ 0x64 # js ''aily-note'' @ js ''}}'',
             mt_dayName = js ''friday'', mt_format = 0x64 # js ''aily-note'', mt_rest = rest\<rparr>"
    unfolding match_at_iff
    by (intro exI [of _ "js ''friday''"] exI [of _ "0x64"] exI [of _ "js ''aily-note''"]
        exI [of _ rest])
       (simp add: is_line_terminator_def, simp add: js_def days_def toLowerCase_def)
  then show ?thesis by (simp add: js_def)
qed

lemma daily_note_keyword:
  "toLowerCase (js ''friday'') = js ''friday''" "trim (js ''daily-note'') = js ''daily-note''"
  by code_simp+

lemma daily_nonempty: "js ''Daily'' \<noteq> []" "js ''YYYY-MM-DD'' \<noteq> []"
  by (simp_all add: js_def)

section \<open>Opening the weekly note twice\<close>

lemma ensureFolderExists_frame:
  "notices (ensureFolderExists np a fld) = notices a"
  "created (ensureFolderExists np a fld) = created a"
  "opened (ensureFolderExists np a fld) = opened a"
  "timers (ensureFolderExists np a fld) = timers a"
  "inserted (ensureFolderExists np a fld) = inserted a"
  "editor (ensureFolderExists np a fld) = editor a"
  "create_error (ensureFolderExists np a fld) = create_error a"
  "templates (ensureFolderExists np a fld) = templates a"
  by (auto simp: ensureFolderExists_def vault_createFolder_def Let_def split: option.splits sum.splits)

lemma ensureFolderExists_vault:
  "vault a p = Some e \<Longrightarrow> vault (ensureFolderExists np a fld) p = Some e"
  by (auto simp: ensureFolderExists_def vault_createFolder_def Let_def split: option.splits sum.splits)

lemma applyTemplate_frame:
  "created (applyTemplate np settings a file date) = created a"
  "opened (applyTemplate np settings a file date) = opened a"
  by (auto simp: applyTemplate_def Let_def split: option.splits prod.splits entry.splits)

lemma applyTemplate_file:
  "vault a file = Some (TFile c) \<Longrightarrow> \<exists>c'. vault (applyTemplate np settings a file date) file = Some (TFile c')"
  by (auto simp: applyTemplate_def Let_def split: option.splits prod.splits entry.splits)

lemma openWeeklyNote_created:
  assumes "created (openWeeklyNote np fmt settings a date) \<noteq> created a"
  shows "vault a (weekly_path np fmt settings date) = None
         \<and> created (openWeeklyNote np fmt settings a date) = created a @ [weekly_path np fmt settings date]
         \<and> (\<exists>c. vault (openWeeklyNote np fmt settings a date) (weekly_path np fmt settings date)
                  = Some (TFile c))"
proof -
  let ?path = "weekly_path np fmt settings date"
  let ?a1 = "ensureFolderExists np a (folder settings)"
  have absent: "vault a ?path = None"
  proof (cases "vault a ?path")
    case (Some e)
    then have "created (openWeeklyNote np fmt settings a date) = created a"
      by (cases e) (simp_all add: openWeeklyNote_def weekly_path_def Let_def)
    with assms show ?thesis by simp
  qed simp
  obtain a2 where a2: "vault_create ?a1 ?path [] = Inr a2"
  proof (cases "vault_create ?a1 ?path []")
    case (Inl e)
    with absent have "created (openWeeklyNote np fmt settings a date) = created a"
      by (simp add: openWeeklyNote_def weekly_path_def [symmetric] Let_def ensureFolderExists_frame)
    with assms show ?thesis by simp
  next
    case (Inr x)
    with that show ?thesis by blast
  qed
  then have a2v: "vault a2 ?path = Some (TFile [])" "created a2 = created a @ [?path]"
    by (auto simp: vault_create_def ensureFolderExists_frame split: option.splits if_splits)
  let ?a4 = "a2\<lparr>notices := notices a2 @ [js ''Created weekly note: '' @ fmt date (dateFormat settings)],
               opened := opened a2 @ [?path]\<rparr>"
  have res: "openWeeklyNote np fmt settings a date
        = (if template settings \<noteq> [] then applyTemplate np settings ?a4 ?path date else ?a4)"
    using absent a2
    by (simp add: openWeeklyNote_def weekly_path_def [symmetric] Let_def)
  have v4: "vault ?a4 ?path = Some (TFile [])" using a2v by simp
  show ?thesis
  proof (cases "template settings \<noteq> []")
    case True
    with res a2v applyTemplate_file [OF v4, of np settings date] absent show ?thesis
      by (simp add: applyTemplate_frame)
  next
    case False
    with res a2v absent show ?thesis by simp
  qed
qed

lemma openWeeklyNote_existing:
  assumes "vault a (weekly_path np fmt settings date) = Some (TFile c)"
  shows "openWeeklyNote np fmt settings a date
           = a\<lparr>opened := opened a @ [weekly_path np fmt settings date]\<rparr>"
  using assms by (simp add: openWeeklyNote_def weekly_path_def [symmetric] Let_def)

section \<open>Template lookup and the guards of the auto-templater\<close>

lemma applyTemplate_not_found:
  "resolve_weekly np a (template settings) = None \<Longrightarrow>
   applyTemplate np settings a file date
     = a\<lparr>notices := notices a @ [js ''Template file not found: '' @ template settings]\<rparr>"
  by (simp add: applyTemplate_def)

lemma resolve_weekly_literal_first: "resolve_weekly np a t = resolve_literal_first np a t"
  by (simp add: resolve_weekly_def resolve_literal_first_def Let_def split: option.splits)

lemma resolve_weekly_None:
  "resolve_weekly np a t = None \<longleftrightarrow> vault a (np t) = None \<and> vault a (np (t @ js ''.md'')) = None"
  by (auto simp: resolve_weekly_def Let_def split: option.splits)

lemma onFileCreate_trigger:
  assumes "file_extension f = js ''md''" "stat_size f = 0"
    and "dailyNotes a = Some p" "enabled p"
    and "or_default (opt_template (options p)) [] \<noteq> []"
    and "parse (file_basename f) (or_default (opt_format (options p)) (js ''YYYY-MM-DD''))"
    and "or_default (opt_folder (options p)) [] \<noteq> [] \<longrightarrow>
           file_parent f = Some (np (or_default (opt_folder (options p)) []))"
    and "resolve_daily np a (or_default (opt_template (options p)) []) = Some (q, TFile c)"
    and "templates a = Some True"
  shows "onFileCreate np parse a (File f) = a\<lparr>timers := timers a @ [(200, InsertTemplate q)]\<rparr>"
proof (cases "or_default (opt_folder (options p)) [] = []")
  case True
  with assms show ?thesis by (simp add: onFileCreate_def Let_def)
next
  case False
  with assms show ?thesis by (simp add: onFileCreate_def Let_def)
qed

lemma onFileCreate_changed:
  assumes neq: "onFileCreate np parse a file \<noteq> a"
  shows "\<exists>f p q c. file = File f \<and> file_extension f = js ''md'' \<and> stat_size f = 0
           \<and> dailyNotes a = Some p \<and> enabled p
           \<and> or_default (opt_template (options p)) [] \<noteq> []
           \<and> parse (file_basename f) (or_default (opt_format (options p)) (js ''YYYY-MM-DD''))
           \<and> (or_default (opt_folder (options p)) [] \<noteq> [] \<longrightarrow>
                 file_parent f = Some (np (or_default (opt_folder (options p)) [])))
           \<and> resolve_daily np a (or_default (opt_template (options p)) []) = Some (q, TFile c)
           \<and> templates a = Some True"
proof -
  from neq obtain f where f: "file = File f"
    by (cases "file") (simp_all add: onFileCreate_def)
  have g1: "file_extension f = js ''md'' \<and> stat_size f = 0"
  proof (rule ccontr)
    assume "\<not> (file_extension f = js ''md'' \<and> stat_size f = 0)"
    then have "onFileCreate np parse a file = a" using f by (auto simp: onFileCreate_def)
    with neq show False by simp
  qed
  obtain p where p: "dailyNotes a = Some p"
  proof (cases "dailyNotes a")
    case None
    with f g1 have "onFileCreate np parse a file = a" by (simp add: onFileCreate_def)
    with neq show ?thesis by simp
  qed blast
  have g2: "enabled p"
  proof (rule ccontr)
    assume "\<not> enabled p"
    with f g1 p have "onFileCreate np parse a file = a" by (simp add: onFileCreate_def)
    with neq show False by simp
  qed
  let ?fmt = "or_default (opt_format (options p)) (js ''YYYY-MM-DD'')"
  let ?fld = "or_default (opt_folder (options p)) []"
  let ?tpl = "or_default (opt_template (options p)) []"
  have g3: "?tpl \<noteq> []"
  proof (rule ccontr)
    assume "\<not> ?tpl \<noteq> []"
    with f g1 p g2 have "onFileCreate np parse a file = a"
      by (simp add: onFileCreate_def Let_def)
    with neq show False by simp
  qed
  have g4: "parse (file_basename f) ?fmt"
  proof (rule ccontr)
    assume "\<not> parse (file_basename f) ?fmt"
    with f g1 p g2 g3 have "onFileCreate np parse a file = a"
      by (simp add: onFileCreate_def Let_def)
    with neq show False by simp
  qed
  have g5: "?fld \<noteq> [] \<longrightarrow> file_parent f = Some (np ?fld)"
  proof (rule ccontr)
    assume "\<not> (?fld \<noteq> [] \<longrightarrow> file_parent f = Some (np ?fld))"
    then have "?fld \<noteq> [] \<and> (case file_parent f of None \<Rightarrow> True | Some parent \<Rightarrow> parent \<noteq> np ?fld)"
      by (auto split: option.splits)
    with f g1 p g2 g3 g4 have "onFileCreate np parse a file = a"
      by (simp add: onFileCreate_def Let_def)
    with neq show False by simp
  qed
  have rest: "onFileCreate np parse a file =
      (case resolve_daily np a ?tpl of
         None \<Rightarrow> a
       | Some (q, TFolder) \<Rightarrow> a
       | Some (q, TFile content) \<Rightarrow>
           if templates a = Some True
           then a\<lparr>timers := timers a @ [(200, InsertTemplate q)]\<rparr> else a)"
  proof (cases "?fld = []")
    case True
    with f g1 p g2 g3 g4 show ?thesis by (simp add: onFileCreate_def Let_def)
  next
    case False
    with g5 have "file_parent f = Some (np ?fld)" by simp
    with False f g1 p g2 g3 g4 show ?thesis by (simp add: onFileCreate_def Let_def)
  qed
  obtain q e where r: "resolve_daily np a ?tpl = Some (q, e)"
  proof (cases "resolve_daily np a ?tpl")
    case None
    with rest neq show ?thesis by simp
  next
    case (Some x)
    with that show ?thesis by (cases x) blast
  qed
  obtain c where c: "e = TFile c"
  proof (cases e)
    case TFolder
    with rest r neq show ?thesis by simp
  qed blast
  have g6: "templates a = Some True"
  proof (rule ccontr)
    assume "templates a \<noteq> Some True"
    with rest r c neq show False by simp
  qed
  from f g1 p g2 g3 g4 g5 r c g6 show ?thesis by blast
qed

section \<open>A missing weekly template, and the sample event\<close>



lemma sample_trigger:
  "file_extension sample_file = js ''md''" "stat_size sample_file = 0"
  "dailyNotes (sample_host sample_vault True)
     = Some \<lparr>enabled = True,
              options = \<lparr>opt_format = None, opt_folder = Some (js ''Daily''),
                         opt_template = Some (js ''Templates/Daily'')\<rparr>\<rparr>"
  "templates (sample_host sample_vault True) = Some True"
  "timers (sample_host sample_vault True) = []"
  by (simp_all add: sample_file_def sample_host_def)

lemma sample_trigger_values:
  "or_default (Some (js ''Templates/Daily'')) [] = js ''Templates/Daily''"
  "or_default (Some (js ''Daily'')) [] = js ''Daily''"
  "or_default None (js ''YYYY-MM-DD'') = js ''YYYY-MM-DD''"
  "sample_parse (file_basename sample_file) (js ''YYYY-MM-DD'')"
  "file_parent sample_file = Some (js ''Daily'')"
  "resolve_daily (\<lambda>p. p) (sample_host sample_vault True) (js ''Templates/Daily'')
     = Some (js ''Templates/Daily.md'', TFile (js ''!{{friday:daily-note}}''))"
  by code_simp+

section \<open>A token after other text\<close>

lemma match_at_append:
  assumes "match_at x = Some m"
  shows "match_at (x @ s) = Some (m\<lparr>mt_rest := mt_rest m @ s\<rparr>)"
proof -
  from assms obtain w c spec rest where
    x: "x = js ''!{{'' @ w @ js '':'' @ c # spec @ js ''}}'' @ rest"
    and g: "toLowerCase w \<in> set days" "\<not> is_line_terminator c" "0x7D \<notin> set spec"
    and m: "m = \<lparr>mt_text = js ''!{{'' @ w @ js '':'' @ c # spec @ js ''}}'', mt_dayName = w,
                 mt_format = c # spec, mt_rest = rest\<rparr>"
    unfolding match_at_iff by blast
  have "x @ s = js ''!{{'' @ w @ js '':'' @ c # spec @ js ''}}'' @ (rest @ s)"
    using x by simp
  moreover have "m\<lparr>mt_rest := mt_rest m @ s\<rparr>
      = \<lparr>mt_text = js ''!{{'' @ w @ js '':'' @ c # spec @ js ''}}'', mt_dayName = w,
                 mt_format = c # spec, mt_rest = rest @ s\<rparr>"
    using m by simp
  ultimately show ?thesis
    unfolding match_at_iff using g by blast
qed

lemma match_at_append_conv:
  assumes "match_at (x @ s) = Some m" and "length s \<le> length (mt_rest m)"
  shows "\<exists>m'. match_at x = Some m' \<and> m = m'\<lparr>mt_rest := mt_rest m' @ s\<rparr>"
proof -
  from assms(1) obtain w c spec rest where
    x: "x @ s = js ''!{{'' @ w @ js '':'' @ c # spec @ js ''}}'' @ rest"
    and g: "toLowerCase w \<in> set days" "\<not> is_line_terminator c" "0x7D \<notin> set spec"
    and m: "m = \<lparr>mt_text = js ''!{{'' @ w @ js '':'' @ c # spec @ js ''}}'', mt_dayName = w,
                 mt_format = c # spec, mt_rest = rest\<rparr>"
    unfolding match_at_iff by blast
  let ?t = "js ''!{{'' @ w @ js '':'' @ c # spec @ js ''}}''"
  from x have xs: "x @ s = ?t @ rest" by simp
  from assms(2) m have len: "length s \<le> length rest" by simp
  from xs obtain us where
    "(x = ?t @ us \<and> us @ s = rest) \<or> (x @ us = ?t \<and> s = us @ rest)"
    unfolding append_eq_append_conv2 by blast
  then obtain r where xt: "x = ?t @ r" and rest: "rest = r @ s"
  proof
    assume "x = ?t @ us \<and> us @ s = rest"
    then show ?thesis using that [of us] by simp
  next
    assume h: "x @ us = ?t \<and> s = us @ rest"
    with len have "us = []" by (cases us) auto
    with h show ?thesis using that [of "[]"] by simp
  qed
  let ?m' = "\<lparr>mt_text = ?t, mt_dayName = w, mt_format = c # spec, mt_rest = r\<rparr>"
  from xt have "x = js ''!{{'' @ w @ js '':'' @ c # spec @ js ''}}'' @ r" by simp
  with g have "match_at x = Some ?m'"
    unfolding match_at_iff by blast
  moreover have "m = ?m'\<lparr>mt_rest := mt_rest ?m' @ s\<rparr>" using m rest by simp
  ultimately show ?thesis by blast
qed


lemma tokenize_append:
  assumes "\<forall>i<length pre. \<forall>m. match_at (drop i (pre @ s)) = Some m \<longrightarrow>
             length s \<le> length (mt_rest m)"
  shows "tokenize (pre @ s) = map (extend_piece s) (tokenize pre) @ tokenize s"
  using assms
proof (induction pre rule: tokenize.induct)
  case 1
  then show ?case by simp
next
  case (2 c cs)
  show ?case
  proof (cases "match_at ((c # cs) @ s)")
    case None
    have n: "match_at (c # cs) = None"
    proof (cases "match_at (c # cs)")
      case (Some m')
      from match_at_append [OF this, of s] None show ?thesis by simp
    qed simp
    have "\<forall>i<length cs. \<forall>m. match_at (drop i (cs @ s)) = Some m \<longrightarrow>
             length s \<le> length (mt_rest m)"
    proof (intro allI impI)
      fix i m
      assume "i < length cs" "match_at (drop i (cs @ s)) = Some m"
      then have "Suc i < length (c # cs)" "match_at (drop (Suc i) ((c # cs) @ s)) = Some m"
        by simp_all
      with "2.prems" show "length s \<le> length (mt_rest m)" by blast
    qed
    from "2.IH"(1) [OF n this] have "tokenize (cs @ s) = map (extend_piece s) (tokenize cs) @ tokenize s" .
    moreover have "tokenize ((c # cs) @ s) = Lit c # tokenize (cs @ s)"
      using None by simp
    moreover have "tokenize (c # cs) = Lit c # tokenize cs"
      using n by simp
    ultimately show ?thesis by simp
  next
    case (Some m)
    have "match_at (drop 0 ((c # cs) @ s)) = Some m" using Some by simp
    with "2.prems" have "length s \<le> length (mt_rest m)" by fastforce
    from match_at_append_conv [OF Some this] obtain m' where
      m': "match_at (c # cs) = Some m'" and mm: "m = m'\<lparr>mt_rest := mt_rest m' @ s\<rparr>" by blast
    have split: "c # cs = mt_text m' @ mt_rest m'" using match_at_text [OF m'] .
    have "\<forall>i<length (mt_rest m'). \<forall>m. match_at (drop i (mt_rest m' @ s)) = Some m \<longrightarrow>
             length s \<le> length (mt_rest m)"
    proof (intro allI impI)
      fix i k
      assume i: "i < length (mt_rest m')" and k: "match_at (drop i (mt_rest m' @ s)) = Some k"
      have "drop (length (mt_text m') + i) ((c # cs) @ s) = drop i (mt_rest m' @ s)"
        by (subst split) (simp add: drop_append)
      moreover have "length (mt_text m') + i < length (c # cs)"
        by (subst split) (use i in simp)
      ultimately show "length s \<le> length (mt_rest k)"
        using "2.prems" k by metis
    qed
    from "2.IH"(2) [OF m' this]
    have "tokenize (mt_rest m' @ s) = map (extend_piece s) (tokenize (mt_rest m')) @ tokenize s" .
    moreover have "tokenize ((c # cs) @ s) = Tok m # tokenize (mt_rest m)"
      using tokenize_token [OF Some] .
    moreover have "tokenize (c # cs) = Tok m' # tokenize (mt_rest m')"
      using tokenize_token [OF m'] .
    ultimately show ?thesis using mm by simp
  qed
qed

lemma replacement_rest:
  "replacement fmt dn date (m\<lparr>mt_rest := r\<rparr>) = replacement fmt dn date m"
  by (simp add: replacement_def placeholder_def Let_def split: option.splits)

lemma piece_out_extend:
  "piece_out (replacement fmt dn date) (extend_piece s p) = piece_out (replacement fmt dn date) p"
  by (cases p) (simp_all add: replacement_rest)

lemma string_replace_at_token:
  assumes tok: "match_at s = Some m"
    and reach: "\<forall>i<length pre. \<forall>m'. match_at (drop i (pre @ s)) = Some m' \<longrightarrow>
             length s \<le> length (mt_rest m')"
  shows "string_replace (placeholder fmt dn date) (pre @ s) md
     = (fst (string_replace (placeholder fmt dn date) pre md) @ replacement fmt dn date m
          @ fst (string_replace (placeholder fmt dn date) (mt_rest m) True), True)"
proof -
  let ?R = "replacement fmt dn date"
  have t: "tokenize (pre @ s) = map (extend_piece s) (tokenize pre) @ Tok m # tokenize (mt_rest m)"
    using tokenize_append [OF reach] tokenize_token [OF tok] by simp
  have "fst (string_replace (placeholder fmt dn date) (pre @ s) md)
      = concat (map (piece_out ?R) (tokenize pre)) @ ?R m
          @ concat (map (piece_out ?R) (tokenize (mt_rest m)))"
    by (simp add: string_replace_out t comp_def piece_out_extend)
  then have 1: "fst (string_replace (placeholder fmt dn date) (pre @ s) md)
      = fst (string_replace (placeholder fmt dn date) pre md) @ ?R m
          @ fst (string_replace (placeholder fmt dn date) (mt_rest m) True)"
    by (simp add: string_replace_out)
  have "Tok m \<in> set (tokenize (pre @ s))" by (simp add: t)
  then have 2: "snd (string_replace (placeholder fmt dn date) (pre @ s) md) = True"
    unfolding string_replace_flag by blast
  from 1 2 show ?thesis by (simp add: prod_eq_iff)
qed

section \<open>The Monday and the Friday of the anchor\<close>

lemma iso_week_same_thursday:
  "n - (n + 3) mod 7 = k - (k + 3) mod 7 \<Longrightarrow> iso_week n = iso_week k"
  by (simp add: iso_week_def Let_def)

lemma mod7_offset:
  fixes q r k :: int
  assumes "0 \<le> k" "k < 7"
  shows "(7 * q + k) mod 7 = k"
  using assms by simp

lemma friday_same_iso_week:
  assumes "getDay date \<noteq> 0"
  shows "iso_week (local_day (moment_day date 5)) = iso_week (local_day date)"
proof -
  define n where "n = local_day date"
  define q r where "q = (n + 4) div 7" and "r = (n + 4) mod 7"
  have e: "7 * q + r = n + 4" unfolding q_def r_def by (rule mult_div_mod_eq)
  have "0 \<le> r" "r < 7" unfolding r_def by simp_all
  moreover have "r \<noteq> 0" using assms unfolding r_def n_def getDay_def .
  ultimately have r: "0 < r" "r < 7" by simp_all
  have "n + 3 = 7 * q + (r - 1)" using e by linarith
  then have "(n + 3) mod 7 = (7 * q + (r - 1)) mod 7" by (simp only:)
  also have "\<dots> = r - 1" using r by (intro mod7_offset) simp_all
  finally have m1: "(n + 3) mod 7 = r - 1" .
  have "n + (5 - r) + 3 = 7 * q + 4" using e by linarith
  then have "(n + (5 - r) + 3) mod 7 = (7 * q + 4) mod 7" by (simp only:)
  also have "\<dots> = 4" by (intro mod7_offset) simp_all
  finally have m2: "(n + (5 - r) + 3) mod 7 = 4" .
  have "(n + (5 - r)) - (n + (5 - r) + 3) mod 7 = n - (n + 3) mod 7"
    unfolding m1 m2 by linarith
  then have "iso_week (n + (5 - r)) = iso_week n" by (rule iso_week_same_thursday)
  moreover have "local_day (moment_day date 5) = n + (5 - r)"
    by (simp add: moment_day_def getDay_def n_def r_def)
  ultimately show ?thesis by (simp add: n_def)
qed

lemma reach_by_scan:
  "list_all (\<lambda>i. case match_at (drop i d) of None \<Rightarrow> True
                 | Some m' \<Rightarrow> n \<le> length (mt_rest m')) [0..<k]
   \<Longrightarrow> \<forall>i<k. \<forall>m'. match_at (drop i d) = Some m' \<longrightarrow> n \<le> length (mt_rest m')"
  by (auto simp: list_all_iff split: option.splits)

lemma monday_token:
  "match_at (js ''!{{monday:YYYY-MM-DD}}'' @ rest) =
     Some \<lparr>mt_text = js ''!{{monday:YYYY-MM-DD}}'', mt_dayName = js ''monday'',
           mt_format = js ''YYYY-MM-DD'', mt_rest = rest\<rparr>"
proof -
  have "match_at (js ''!{{'' @ js ''monday'' @ js '':'' @ 0x59 # js ''YYY-MM-DD'' @ js ''}}'' @ rest)
          = Some \<lparr>mt_text = js ''!{{'' @ js ''monday'' @ js '':'' @ 0x59 # js ''YYY-MM-DD'' @ js ''}}'',
             mt_dayName = js ''monday'', mt_format = 0x59 # js ''YYY-MM-DD'', mt_rest = rest\<rparr>"
    unfolding match_at_iff
    by (intro exI [of _ "js ''monday''"] exI [of _ "0x59"] exI [of _ "js ''YYY-MM-DD''"]
        exI [of _ rest])
       (simp add: is_line_terminator_def, simp add: js_def days_def toLowerCase_def)
  then show ?thesis by (simp add: js_def)
qed

lemma monday_replacer:
  assumes "toLowerCase (mt_dayName m) = js ''monday''" and "mt_format m = js ''YYYY-MM-DD''"
  shows "placeholder fmt dn date m md = (fmt (moment_day date 1) (js ''YYYY-MM-DD''), True)"
    and "placeholder_inline fmt dn date m md = (fmt (moment_day date 1) (js ''YYYY-MM-DD''), True)"
  using assms
  by (simp_all add: placeholder_def placeholder_inline_def monday_index ymd_not_keyword)

lemma sample_monday_doc:
  "js ''!{{sunday:YYYY-MM-DD}} and '' @ js ''!{{monday:YYYY-MM-DD}}'' @ js ''.''
     = js ''!{{sunday:YYYY-MM-DD}} and !{{monday:YYYY-MM-DD}}.''"
  "js ''2024-03-03 and '' @ js ''2024-03-04'' @ js ''.'' = js ''2024-03-03 and 2024-03-04.''"
  by (simp_all add: js_def)

lemma sample_friday_doc:
  "js ''Due '' @ js ''!{{friday:daily-note}}'' @ js ''.'' = js ''Due !{{friday:daily-note}}.''"
  "js ''Due '' @ js ''Daily/'' @ js ''2024-03-08'' @ js ''.'' = js ''Due Daily/2024-03-08.''"
  "js ''Due '' @ js ''2024-03-08'' @ js ''.'' = js ''Due 2024-03-08.''"
  by (simp_all add: js_def)

section \<open>The claims\<close>

text \<open>
  C5. When no position of the document matches the placeholder pattern, the rewrite
  returns the document unchanged with the flag \<open>modified\<close> unset, and
  \<open>replaceDatePlaceholders\<close> leaves the whole application state as it was: the editor's
  \<open>setValue\<close> is not called.
\<close>

theorem C5_no_token_no_edit:
  assumes "editor a = Some content"
    and "\<forall>i<length content. match_at (drop i content) = None"
  shows "string_replace (placeholder fmt (dailyNotes a) date) content False = (content, False)
         \<and> replaceDatePlaceholders fmt a date = a"
proof -
  let ?cb = "placeholder fmt (dailyNotes a) date"
  from assms(2) have tk: "tokenize content = map Lit content" by (rule tokenize_no_match)
  then have none: "\<not> (\<exists>m. Tok m \<in> set (tokenize content))" by auto
  have "fst (string_replace ?cb content False) = concat (map piece_src (tokenize content))"
    using no_tokens_out [OF none] by (simp add: string_replace_out)
  then have out: "fst (string_replace ?cb content False) = content"
    by (simp add: tokenize_src)
  have flag: "snd (string_replace ?cb content False) = False"
    using none by (simp add: string_replace_flag)
  from out flag have eq: "string_replace ?cb content False = (content, False)"
    by (simp add: prod_eq_iff)
  with assms(1) show ?thesis by (simp add: replaceDatePlaceholders_def)
qed


theorem C5_no_token_no_edit_witness:
  "string_replace (placeholder sample_format None \<lparr>local_day = 19786, local_ms = 0\<rparr>)
      (js ''Week !{{mon}}'') False = (js ''Week !{{mon}}'', False)
   \<and> replaceDatePlaceholders sample_format (sample_app (js ''Week !{{mon}}'') None)
        \<lparr>local_day = 19786, local_ms = 0\<rparr> = sample_app (js ''Week !{{mon}}'') None"
proof -
  have "list_all (\<lambda>i. match_at (drop i (js ''Week !{{mon}}'')) = None)
          [0..<length (js ''Week !{{mon}}'')]"
    by code_simp
  then have h: "\<forall>i<length (js ''Week !{{mon}}''). match_at (drop i (js ''Week !{{mon}}'')) = None"
    by (simp add: list_all_iff)
  have e: "editor (sample_app (js ''Week !{{mon}}'') None) = Some (js ''Week !{{mon}}'')"
    by (simp add: sample_app_def)
  have d: "dailyNotes (sample_app (js ''Week !{{mon}}'') None) = None"
    by (simp add: sample_app_def)
  show ?thesis
    using C5_no_token_no_edit [OF e h, of sample_format "\<lparr>local_day = 19786, local_ms = 0\<rparr>"]
    by (simp add: d)
qed

text \<open>
  C9. The scan cuts the document into pieces whose texts, in order, make up the
  document; the rewritten text consists of the same pieces in the same order, a code
  unit outside every match as it is and a match replaced by what the replacer returns
  for it; every piece that is replaced is a match of the pattern at its place; and the
  editor content after \<open>replaceDatePlaceholders\<close> is that rewritten text.
\<close>

theorem C9_frame:
  "concat (map piece_src (tokenize content)) = content
   \<and> fst (string_replace (placeholder fmt dn date) content md)
       = concat (map (piece_out (replacement fmt dn date)) (tokenize content))
   \<and> (\<forall>m. Tok m \<in> set (tokenize content) \<longrightarrow> match_at (mt_text m @ mt_rest m) = Some m)
   \<and> editor (replaceDatePlaceholders fmt a date)
       = map_option (\<lambda>c. concat (map (piece_out (replacement fmt (dailyNotes a) date)) (tokenize c)))
           (editor a)"
proof (intro conjI)
  show "concat (map piece_src (tokenize content)) = content" by (rule tokenize_src)
  show "fst (string_replace (placeholder fmt dn date) content md)
       = concat (map (piece_out (replacement fmt dn date)) (tokenize content))"
    by (rule string_replace_out)
  show "\<forall>m. Tok m \<in> set (tokenize content) \<longrightarrow> match_at (mt_text m @ mt_rest m) = Some m"
    by (blast dest: tokenize_tokens)
  show "editor (replaceDatePlaceholders fmt a date)
       = map_option (\<lambda>c. concat (map (piece_out (replacement fmt (dailyNotes a) date)) (tokenize c)))
           (editor a)"
  proof (cases "editor a")
    case None
    then show ?thesis by (simp add: replaceDatePlaceholders_def)
  next
    case (Some c)
    let ?cb = "placeholder fmt (dailyNotes a) date"
    let ?out = "concat (map (piece_out (replacement fmt (dailyNotes a) date)) (tokenize c))"
    obtain c' md' where r: "string_replace ?cb c False = (c', md')"
      by (cases "string_replace ?cb c False")
    have c': "c' = ?out" using string_replace_out [of fmt "dailyNotes a" date c False] r by simp
    have md': "md' = (\<exists>m. Tok m \<in> set (tokenize c))"
      using string_replace_flag [of fmt "dailyNotes a" date c False] r by simp
    show ?thesis
    proof (cases md')
      case True
      with Some r c' show ?thesis by (simp add: replaceDatePlaceholders_def)
    next
      case False
      with md' have "?out = concat (map piece_src (tokenize c))"
        by (intro no_tokens_out) simp
      then have "?out = c" by (simp add: tokenize_src)
      with False Some r show ?thesis by (simp add: replaceDatePlaceholders_def)
    qed
  qed
qed

lemma sample_tok: "tokenize (js ''a !{{Tuesday:YYYY-MM-DD}}.'') =
    [Lit 0x61, Lit 0x20,
     Tok \<lparr>mt_text = js ''!{{Tuesday:YYYY-MM-DD}}'', mt_dayName = js ''Tuesday'',
          mt_format = js ''YYYY-MM-DD'', mt_rest = js ''.''\<rparr>,
     Lit 0x2E]"
  by code_simp

theorem C9_frame_witness:
  "fst (string_replace (placeholder sample_format None \<lparr>local_day = 19786, local_ms = 0\<rparr>)
          (js ''a !{{Tuesday:YYYY-MM-DD}}.'') False) = js ''a 2024-03-05.''
   \<and> match_at (js ''!{{Tuesday:YYYY-MM-DD}}.'') =
       Some \<lparr>mt_text = js ''!{{Tuesday:YYYY-MM-DD}}'', mt_dayName = js ''Tuesday'',
             mt_format = js ''YYYY-MM-DD'', mt_rest = js ''.''\<rparr>"
proof -
  let ?m = "\<lparr>mt_text = js ''!{{Tuesday:YYYY-MM-DD}}'', mt_dayName = js ''Tuesday'',
          mt_format = js ''YYYY-MM-DD'', mt_rest = js ''.''\<rparr>"
  let ?d = "\<lparr>local_day = 19786, local_ms = 0\<rparr>"
  note f = C9_frame [of "js ''a !{{Tuesday:YYYY-MM-DD}}.''" sample_format None ?d False]
  have r: "replacement sample_format None ?d ?m = js ''2024-03-05''"
    by code_simp
  have "Tok ?m \<in> set (tokenize (js ''a !{{Tuesday:YYYY-MM-DD}}.''))"
    by (simp add: sample_tok)
  with f have 1: "match_at (mt_text ?m @ mt_rest ?m) = Some ?m" by blast
  have 2: "fst (string_replace (placeholder sample_format None ?d)
          (js ''a !{{Tuesday:YYYY-MM-DD}}.'') False) = js ''a 2024-03-05.''"
    using f by (simp add: sample_tok r) (simp add: js_def)
  from 1 2 show ?thesis by (simp add: js_def)
qed

text \<open>
  C10. The inline replacer of the older source file and the replacer of \<open>main.ts\<close> with
  \<open>getDailyNoteLink\<close> give the same rewritten text and the same flag, for every
  document and anchor date, provided that the daily-note link is never empty: whenever
  the daily-notes plugin is enabled and no daily folder is configured, the daily format
  renders each day of the anchor's week as a non-empty string. Then the two timer
  bodies leave the same application state.
\<close>

theorem C10_inline_agrees:
  assumes "\<forall>p. dailyNotes a = Some p \<and> enabled p \<and> or_default (opt_folder (options p)) [] = [] \<longrightarrow>
            (\<forall>i<7. fmt (moment_day date i)
                      (or_default (opt_format (options p)) (js ''YYYY-MM-DD'')) \<noteq> [])"
  shows "string_replace (placeholder_inline fmt (dailyNotes a) date) content md
           = string_replace (placeholder fmt (dailyNotes a) date) content md
         \<and> replaceDatePlaceholders_inline fmt a date = replaceDatePlaceholders fmt a date"
proof -
  have eq: "string_replace (placeholder_inline fmt (dailyNotes a) date) c md'
           = string_replace (placeholder fmt (dailyNotes a) date) c md'" for c md'
    unfolding string_replace_def
  proof (rule replace_loop_cong)
    fix m md
    assume "Tok m \<in> set (tokenize c)"
    then have "match_at (mt_text m @ mt_rest m) = Some m" by (rule tokenize_tokens)
    from placeholder_inline_eq [OF this assms]
    show "placeholder_inline fmt (dailyNotes a) date m md = placeholder fmt (dailyNotes a) date m md" .
  qed
  then show ?thesis
    by (simp add: replaceDatePlaceholders_inline_def replaceDatePlaceholders_def
        split: option.splits)
qed

theorem C10_inline_agrees_witness:
  "string_replace (placeholder_inline sample_format (Some (sample_daily None None))
        \<lparr>local_day = 19788, local_ms = 0\<rparr>) (js ''!{{monday:daily-note}}'') False
     = (js ''2024-03-04'', True)
   \<and> string_replace (placeholder sample_format (Some (sample_daily None None))
        \<lparr>local_day = 19788, local_ms = 0\<rparr>) (js ''!{{monday:daily-note}}'') False
     = (js ''2024-03-04'', True)"
proof -
  let ?a = "sample_app [] (Some (sample_daily None None))"
  let ?d = "\<lparr>local_day = 19788, local_ms = 0\<rparr>"
  have dn: "dailyNotes ?a = Some (sample_daily None None)" by (simp add: sample_app_def)
  have h: "\<forall>p. dailyNotes ?a = Some p \<and> enabled p \<and> or_default (opt_folder (options p)) [] = [] \<longrightarrow>
            (\<forall>i<7. sample_format (moment_day ?d i)
                      (or_default (opt_format (options p)) (js ''YYYY-MM-DD'')) \<noteq> [])"
  proof (intro allI impI)
    fix q and i :: nat
    assume "dailyNotes ?a = Some q \<and> enabled q \<and> or_default (opt_folder (options q)) [] = []"
    with dn have "q = sample_daily None None" by simp
    then show "sample_format (moment_day ?d i)
                 (or_default (opt_format (options q)) (js ''YYYY-MM-DD'')) \<noteq> []"
      by (simp add: sample_daily_def or_default_def sample_format_def iso_date_nonempty)
  qed
  have v: "string_replace (placeholder sample_format (Some (sample_daily None None)) ?d)
             (js ''!{{monday:daily-note}}'') False = (js ''2024-03-04'', True)"
    by code_simp
  from C10_inline_agrees [OF h, of "js ''!{{monday:daily-note}}''" False] v
  show ?thesis by (simp add: dn)
qed

text \<open>
  With the daily format \<open>[]\<close>, which renders as the empty string, and no daily folder,
  the older code replaces \<open>!{{monday:daily-note}}\<close> by the empty string, while
  \<open>main.ts\<close> falls back to the date in the form \<open>YYYY-MM-DD\<close>.
\<close>

theorem C10_inline_differs_counterexample:
  "string_replace (placeholder_inline sample_format (Some (sample_daily (Some (js ''[]'')) None))
        \<lparr>local_day = 19788, local_ms = 0\<rparr>) (js ''!{{monday:daily-note}}'') False
     = ([], True)
   \<and> string_replace (placeholder sample_format (Some (sample_daily (Some (js ''[]'')) None))
        \<lparr>local_day = 19788, local_ms = 0\<rparr>) (js ''!{{monday:daily-note}}'') False
     = (js ''2024-03-04'', True)"
  by code_simp

text \<open>
  C2. A match attempt at the head of a string succeeds exactly when the string
  begins with \<open>!{{\<close>, a weekday name in any letter case, a colon, one character that is
  not a line terminator (it may be a closing brace), any number of characters other
  than a closing brace, and \<open>}}\<close>; the match is that text, with the weekday and the
  characters between the colon and \<open>}}\<close> as its groups. A text in which no position
  matches is returned unchanged by the rewrite.
\<close>

theorem C2_pattern:
  "(match_at s = Some m \<longleftrightarrow>
     (\<exists>w c spec rest.
        s = js ''!{{'' @ w @ js '':'' @ c # spec @ js ''}}'' @ rest
        \<and> toLowerCase w \<in> set days \<and> \<not> is_line_terminator c \<and> 0x7D \<notin> set spec
        \<and> m = \<lparr>mt_text = js ''!{{'' @ w @ js '':'' @ c # spec @ js ''}}'', mt_dayName = w,
                 mt_format = c # spec, mt_rest = rest\<rparr>))
   \<and> ((\<forall>i<length s. match_at (drop i s) = None) \<longrightarrow>
        fst (string_replace (placeholder fmt dn date) s md) = s)"
proof (intro conjI impI)
  show "match_at s = Some m \<longleftrightarrow>
     (\<exists>w c spec rest.
        s = js ''!{{'' @ w @ js '':'' @ c # spec @ js ''}}'' @ rest
        \<and> toLowerCase w \<in> set days \<and> \<not> is_line_terminator c \<and> 0x7D \<notin> set spec
        \<and> m = \<lparr>mt_text = js ''!{{'' @ w @ js '':'' @ c # spec @ js ''}}'', mt_dayName = w,
                 mt_format = c # spec, mt_rest = rest\<rparr>)"
    by (rule match_at_iff)
next
  assume "\<forall>i<length s. match_at (drop i s) = None"
  then have "tokenize s = map Lit s" by (rule tokenize_no_match)
  then have "\<not> (\<exists>m. Tok m \<in> set (tokenize s))" by auto
  then have "concat (map (piece_out (replacement fmt dn date)) (tokenize s))
             = concat (map piece_src (tokenize s))"
    by (rule no_tokens_out)
  then show "fst (string_replace (placeholder fmt dn date) s md) = s"
    by (simp add: string_replace_out tokenize_src)
qed

theorem C2_pattern_witness:
  "match_at (js ''!{{MonDay:}x}} y'') =
     Some \<lparr>mt_text = js ''!{{MonDay:}x}}'', mt_dayName = js ''MonDay'',
           mt_format = js ''}x'', mt_rest = js '' y''\<rparr>"
proof -
  have 1: "js ''!{{MonDay:}x}} y'' =
      js ''!{{'' @ js ''MonDay'' @ js '':'' @ 0x7D # js ''x'' @ js ''}}'' @ js '' y''"
    by (simp add: js_def)
  have 2: "toLowerCase (js ''MonDay'') \<in> set days" by code_simp
  have 3: "\<not> is_line_terminator 0x7D" by (simp add: is_line_terminator_def)
  have 4: "0x7D \<notin> set (js ''x'')" by (simp add: js_def)
  have 5: "js ''!{{MonDay:}x}}'' = js ''!{{'' @ js ''MonDay'' @ js '':'' @ 0x7D # js ''x'' @ js ''}}''"
    "js ''}x'' = 0x7D # js ''x''"
    by (simp_all add: js_def)
  show ?thesis
    using C2_pattern [of "js ''!{{MonDay:}x}} y''"
        "\<lparr>mt_text = js ''!{{MonDay:}x}}'', mt_dayName = js ''MonDay'',
           mt_format = js ''}x'', mt_rest = js '' y''\<rparr>"] 1 2 3 4 5
    by blast
qed

text \<open>
  The shape of the specification and the pattern differ in both directions:
  \<open>!{{monday:}}}\<close> is matched, with the spec \<open>}\<close>, although a closing brace is in
  the spec; and a token whose spec begins with a line feed has the shape of the
  specification but is not matched.
\<close>

theorem C2_shape_counterexample:
  "match_at (js ''!{{monday:}}}'') =
     Some \<lparr>mt_text = js ''!{{monday:}}}'', mt_dayName = js ''monday'',
           mt_format = js ''}'', mt_rest = []\<rparr>
   \<and> \<not> spec_token (js ''!{{monday:}}}'')
   \<and> spec_token (js ''!{{monday:'' @ [0x0A] @ js ''x}}'')
   \<and> match_at (js ''!{{monday:'' @ [0x0A] @ js ''x}}'') = None"
  by code_simp

text \<open>
  C6. When a run of \<open>openWeeklyNote\<close> has created the note, a second run for the
  same settings and date only opens the file at the computed path: it creates no file
  and adds no notification, so there is no second notice of creation. The same holds
  from any later state in which the file is still at that path.
\<close>

theorem C6_second_open_creates_nothing:
  assumes "created (openWeeklyNote np fmt settings a date) \<noteq> created a"
  shows "openWeeklyNote np fmt settings (openWeeklyNote np fmt settings a date) date
           = (openWeeklyNote np fmt settings a date)
               \<lparr>opened := opened (openWeeklyNote np fmt settings a date)
                             @ [weekly_path np fmt settings date]\<rparr>
         \<and> created (openWeeklyNote np fmt settings (openWeeklyNote np fmt settings a date) date)
             = created a @ [weekly_path np fmt settings date]
         \<and> notices (openWeeklyNote np fmt settings (openWeeklyNote np fmt settings a date) date)
             = notices (openWeeklyNote np fmt settings a date)
         \<and> (\<forall>a'. vault a' (weekly_path np fmt settings date)
                   = vault (openWeeklyNote np fmt settings a date) (weekly_path np fmt settings date)
               \<longrightarrow> created (openWeeklyNote np fmt settings a' date) = created a'
                   \<and> notices (openWeeklyNote np fmt settings a' date) = notices a')"
proof -
  let ?a1 = "openWeeklyNote np fmt settings a date"
  let ?path = "weekly_path np fmt settings date"
  from openWeeklyNote_created [OF assms] obtain c where
    cr: "created ?a1 = created a @ [?path]" and v: "vault ?a1 ?path = Some (TFile c)" by blast
  have again: "openWeeklyNote np fmt settings a' date = a'\<lparr>opened := opened a' @ [?path]\<rparr>"
    if "vault a' ?path = vault ?a1 ?path" for a'
    using that v by (intro openWeeklyNote_existing [of _ _ _ _ _ c]) simp
  have 1: "openWeeklyNote np fmt settings ?a1 date = ?a1\<lparr>opened := opened ?a1 @ [?path]\<rparr>"
    by (rule again) simp
  from 1 cr again show ?thesis by simp
qed

theorem C6_second_open_creates_nothing_witness:
  "created (openWeeklyNote (\<lambda>p. p) sample_format (sample_settings [])
       (openWeeklyNote (\<lambda>p. p) sample_format (sample_settings []) (sample_app [] None)
          \<lparr>local_day = 19788, local_ms = 0\<rparr>)
       \<lparr>local_day = 19788, local_ms = 0\<rparr>) = [js ''Weekly/2024-03-06.md'']"
proof -
  let ?d = "\<lparr>local_day = 19788, local_ms = 0\<rparr>"
  have c: "created (openWeeklyNote (\<lambda>p. p) sample_format (sample_settings []) (sample_app [] None) ?d)
           = [js ''Weekly/2024-03-06.md'']"
    by code_simp
  have a: "created (sample_app [] None) = []" by (simp add: sample_app_def)
  have h: "created (openWeeklyNote (\<lambda>p. p) sample_format (sample_settings []) (sample_app [] None) ?d)
           \<noteq> created (sample_app [] None)"
    by (simp add: c a)
  have p: "weekly_path (\<lambda>p. p) sample_format (sample_settings []) ?d = js ''Weekly/2024-03-06.md''"
    by code_simp
  from C6_second_open_creates_nothing [OF h] show ?thesis by (simp add: a p c)
qed

text \<open>
  C3. The weekly applier looks the template up at the configured path and, only when
  nothing is there, at the path with \<open>.md\<close> appended; the template plugin is called
  with the file found. The daily-note auto-templater looks up the path with \<open>.md\<close>
  appended first and the configured path only when nothing is there. In the weekly
  applier, when neither lookup finds anything, the result is the state with the one
  notification \<open>Template file not found\<close> added: the vault and the editor are as before.
\<close>

theorem C3_template_resolution:
  "resolve_weekly np a t = resolve_literal_first np a t
   \<and> (\<forall>e. vault a (np (t @ js ''.md'')) = Some e \<longrightarrow>
          resolve_daily np a t = Some (np (t @ js ''.md''), e))
   \<and> (vault a (np (t @ js ''.md'')) = None \<longrightarrow>
          resolve_daily np a t = map_option (Pair (np t)) (vault a (np t)))
   \<and> (\<forall>q c. resolve_literal_first np a (template settings) = Some (q, TFile c)
             \<and> templates a = Some True \<longrightarrow>
          inserted (applyTemplate np settings a file date) = inserted a @ [q])
   \<and> (vault a (np (template settings)) = None
        \<and> vault a (np (template settings @ js ''.md'')) = None \<longrightarrow>
          applyTemplate np settings a file date
            = a\<lparr>notices := notices a @ [js ''Template file not found: '' @ template settings]\<rparr>
          \<and> vault (applyTemplate np settings a file date) = vault a
          \<and> editor (applyTemplate np settings a file date) = editor a)"
proof (intro conjI allI impI)
  show "resolve_weekly np a t = resolve_literal_first np a t"
    by (rule resolve_weekly_literal_first)
next
  fix e assume "vault a (np (t @ js ''.md'')) = Some e"
  then show "resolve_daily np a t = Some (np (t @ js ''.md''), e)"
    by (simp add: resolve_daily_def)
next
  assume "vault a (np (t @ js ''.md'')) = None"
  then show "resolve_daily np a t = map_option (Pair (np t)) (vault a (np t))"
    by (simp add: resolve_daily_def)
next
  fix q c
  assume "resolve_literal_first np a (template settings) = Some (q, TFile c)
          \<and> templates a = Some True"
  then have "resolve_weekly np a (template settings) = Some (q, TFile c)" "templates a = Some True"
    by (simp_all add: resolve_weekly_literal_first)
  then show "inserted (applyTemplate np settings a file date) = inserted a @ [q]"
    by (simp add: applyTemplate_def)
next
  assume "vault a (np (template settings)) = None
        \<and> vault a (np (template settings @ js ''.md'')) = None"
  then have none: "resolve_weekly np a (template settings) = None"
    by (simp add: resolve_weekly_None)
  from applyTemplate_not_found [OF none]
  show "applyTemplate np settings a file date
            = a\<lparr>notices := notices a @ [js ''Template file not found: '' @ template settings]\<rparr>"
       "vault (applyTemplate np settings a file date) = vault a"
       "editor (applyTemplate np settings a file date) = editor a"
    by simp_all
qed

theorem C3_template_resolution_witness:
  "resolve_daily (\<lambda>p. p) (sample_host sample_vault True) (js ''Templates/Daily'')
     = Some (js ''Templates/Daily.md'', TFile (js ''!{{friday:daily-note}}''))
   \<and> notices (applyTemplate (\<lambda>p. p) (sample_settings (js ''Templates/Weekly''))
        (sample_host sample_vault True) (js ''Weekly/2024-03-06.md'')
        \<lparr>local_day = 19788, local_ms = 0\<rparr>)
     = [js ''Template file not found: Templates/Weekly'']"
proof -
  let ?a = "sample_host sample_vault True"
  let ?s = "sample_settings (js ''Templates/Weekly'')"
  note t = C3_template_resolution [of "\<lambda>p. p" ?a "js ''Templates/Daily''" ?s
      "js ''Weekly/2024-03-06.md''" "\<lparr>local_day = 19788, local_ms = 0\<rparr>"]
  have 1: "vault ?a (js ''Templates/Daily'' @ js ''.md'') = Some (TFile (js ''!{{friday:daily-note}}''))"
    by code_simp
  have 2: "vault ?a (template ?s) = None \<and> vault ?a (template ?s @ js ''.md'') = None"
    by code_simp
  have 3: "notices ?a = []" by (simp add: sample_host_def)
  have 4: "js ''Templates/Daily'' @ js ''.md'' = js ''Templates/Daily.md''"
    "js ''Template file not found: '' @ template ?s = js ''Template file not found: Templates/Weekly''"
    by (simp_all add: js_def sample_settings_def)
  from t 1 have a: "resolve_daily (\<lambda>p. p) ?a (js ''Templates/Daily'')
     = Some (js ''Templates/Daily'' @ js ''.md'', TFile (js ''!{{friday:daily-note}}''))"
    by blast
  from t 2 have "applyTemplate (\<lambda>p. p) ?s ?a (js ''Weekly/2024-03-06.md'')
        \<lparr>local_day = 19788, local_ms = 0\<rparr>
      = ?a\<lparr>notices := notices ?a @ [js ''Template file not found: '' @ template ?s]\<rparr>"
    by blast
  then have b: "notices (applyTemplate (\<lambda>p. p) ?s ?a (js ''Weekly/2024-03-06.md'')
        \<lparr>local_day = 19788, local_ms = 0\<rparr>)
      = [js ''Template file not found: '' @ template ?s]"
    by (simp add: 3)
  from a b show ?thesis by (simp only: 4)
qed

text \<open>
  With a folder \<open>Templates/Daily\<close> beside the file \<open>Templates/Daily.md\<close>, the lookup
  that tries the configured path first finds the folder, while \<open>onFileCreate\<close> finds
  the file and schedules its insertion.
\<close>

theorem C3_daily_lookup_counterexample:
  "resolve_literal_first (\<lambda>p. p) (sample_host sample_vault True) (js ''Templates/Daily'')
     = Some (js ''Templates/Daily'', TFolder)
   \<and> resolve_daily (\<lambda>p. p) (sample_host sample_vault True) (js ''Templates/Daily'')
     = Some (js ''Templates/Daily.md'', TFile (js ''!{{friday:daily-note}}''))
   \<and> timers (onFileCreate (\<lambda>p. p) sample_parse (sample_host sample_vault True) (File sample_file))
     = [(200, InsertTemplate (js ''Templates/Daily.md''))]"
  by code_simp

text \<open>
  C7. \<open>onFileCreate\<close> schedules the insertion of the template exactly when all of
  the following hold: the created entry is a file with the extension \<open>md\<close> and size 0;
  the daily-notes plugin is present and enabled and its template path is not empty;
  the base name of the file passes the strict parse against the daily format (default
  \<open>YYYY-MM-DD\<close>); when a daily folder is configured, the file has a parent whose path
  is the normalized folder; the template path with \<open>.md\<close> appended, or else the path
  itself, leads to a file; and the templates plugin is present and enabled. Then one
  timer of 200 ms for the insertion of that template is added, and nothing else
  changes; in every other case the state is unchanged.
\<close>

theorem C7_auto_templater:
  "(let trigger = (\<lambda>f p q c.
        file = File f \<and> file_extension f = js ''md'' \<and> stat_size f = 0
        \<and> dailyNotes a = Some p \<and> enabled p
        \<and> or_default (opt_template (options p)) [] \<noteq> []
        \<and> parse (file_basename f) (or_default (opt_format (options p)) (js ''YYYY-MM-DD''))
        \<and> (or_default (opt_folder (options p)) [] \<noteq> [] \<longrightarrow>
              file_parent f = Some (np (or_default (opt_folder (options p)) [])))
        \<and> resolve_daily np a (or_default (opt_template (options p)) []) = Some (q, TFile c)
        \<and> templates a = Some True)
    in (\<forall>f p q c. trigger f p q c \<longrightarrow>
          onFileCreate np parse a file = a\<lparr>timers := timers a @ [(200, InsertTemplate q)]\<rparr>)
       \<and> ((\<nexists>f p q c. trigger f p q c) \<longrightarrow> onFileCreate np parse a file = a))"
proof -
  have 1: "onFileCreate np parse a file = a\<lparr>timers := timers a @ [(200, InsertTemplate q)]\<rparr>"
    if "file = File f" "file_extension f = js ''md''" "stat_size f = 0"
      "dailyNotes a = Some p" "enabled p"
      "or_default (opt_template (options p)) [] \<noteq> []"
      "parse (file_basename f) (or_default (opt_format (options p)) (js ''YYYY-MM-DD''))"
      "or_default (opt_folder (options p)) [] \<noteq> [] \<longrightarrow>
              file_parent f = Some (np (or_default (opt_folder (options p)) []))"
      "resolve_daily np a (or_default (opt_template (options p)) []) = Some (q, TFile c)"
      "templates a = Some True" for f p q c
    using onFileCreate_trigger [where parse = parse and np = np, OF that(2-10)] that(1) by simp
  have 2: "onFileCreate np parse a file = a"
    if "\<nexists>f p q c. file = File f \<and> file_extension f = js ''md'' \<and> stat_size f = 0
        \<and> dailyNotes a = Some p \<and> enabled p
        \<and> or_default (opt_template (options p)) [] \<noteq> []
        \<and> parse (file_basename f) (or_default (opt_format (options p)) (js ''YYYY-MM-DD''))
        \<and> (or_default (opt_folder (options p)) [] \<noteq> [] \<longrightarrow>
              file_parent f = Some (np (or_default (opt_folder (options p)) [])))
        \<and> resolve_daily np a (or_default (opt_template (options p)) []) = Some (q, TFile c)
        \<and> templates a = Some True"
    using that onFileCreate_changed [of np parse a "file"] by blast
  from 1 2 show ?thesis unfolding Let_def by blast
qed

theorem C7_auto_templater_witness:
  "timers (onFileCreate (\<lambda>p. p) sample_parse (sample_host sample_vault True) (File sample_file))
     = [(200, InsertTemplate (js ''Templates/Daily.md''))]"
proof -
  let ?p = "\<lparr>enabled = True,
              options = \<lparr>opt_format = None, opt_folder = Some (js ''Daily''),
                         opt_template = Some (js ''Templates/Daily'')\<rparr>\<rparr>"
  have "onFileCreate (\<lambda>p. p) sample_parse (sample_host sample_vault True) (File sample_file)
      = (sample_host sample_vault True)
          \<lparr>timers := timers (sample_host sample_vault True)
                       @ [(200, InsertTemplate (js ''Templates/Daily.md''))]\<rparr>"
  proof -
    have ne: "js ''Templates/Daily'' \<noteq> []" by (simp add: js_def)
    note t = C7_auto_templater [of "File sample_file" "sample_host sample_vault True" sample_parse
        "\<lambda>p. p", unfolded Let_def, THEN conjunct1, rule_format,
        of sample_file ?p "js ''Templates/Daily.md''" "js ''!{{friday:daily-note}}''"]
    show ?thesis
      by (rule t) (simp add: sample_trigger sample_trigger_values ne daily_nonempty)
  qed
  then show ?thesis by (simp add: sample_trigger)
qed

text \<open>
  An empty \<open>md\<close> file whose name parses and whose parent is the daily folder does not
  trigger an insertion while the templates plugin is disabled.
\<close>

theorem C7_templates_disabled_counterexample:
  "stat_size sample_file = 0 \<and> file_extension sample_file = js ''md''
   \<and> map_option (\<lambda>p. (opt_format (options p), opt_folder (options p)))
        (dailyNotes (sample_host sample_vault False)) = Some (None, Some (js ''Daily''))
   \<and> sample_parse (file_basename sample_file) (js ''YYYY-MM-DD'')
   \<and> file_parent sample_file = Some (js ''Daily'')
   \<and> timers (onFileCreate (\<lambda>p. p) sample_parse (sample_host sample_vault False) (File sample_file))
       = []"
  by code_simp




text \<open>
  C1. Assume that the format \<open>YYYY-MM-DD\<close> renders a day of the years 0 to 9999 as
  its four-digit year, two-digit month and two-digit day, and let the anchor date be a
  day of ISO week 2024-W10. Let the document be \<open>pre\<close> followed by \<open>s\<close>, where \<open>s\<close>
  begins with a token whose weekday is monday (in any letter case) and whose format is
  \<open>YYYY-MM-DD\<close>, and where every match of the pattern that begins in \<open>pre\<close> also ends
  in \<open>pre\<close>, so that the scan arrives at the token. Then the rewritten document is the
  rewritten \<open>pre\<close>, then the Monday of the Sunday-to-Saturday week of the anchor, then
  the rewritten text after the token; that Monday is \<open>2024-03-04\<close> when the anchor is
  one of Monday to Saturday, and \<open>2024-03-11\<close> when the anchor is the Sunday. The older
  inline replacer returns the same text for the token, and
  \<open>!{{monday:YYYY-MM-DD}}\<close> before any text is such a token.
\<close>

theorem C1_monday_of_week:
  assumes fmt: "\<forall>m. 0 \<le> fst (civil_from_days (local_day m)) \<and> fst (civil_from_days (local_day m)) \<le> 9999
                  \<longrightarrow> fmt m (js ''YYYY-MM-DD'') = iso_date (local_day m)"
    and week: "iso_week (local_day date) = (2024, 10)"
    and tok: "match_at s = Some m" "toLowerCase (mt_dayName m) = js ''monday''"
      "mt_format m = js ''YYYY-MM-DD''"
    and reach: "\<forall>i<length pre. \<forall>m'. match_at (drop i (pre @ s)) = Some m' \<longrightarrow>
                  length s \<le> length (mt_rest m')"
  shows "string_replace (placeholder fmt dn date) (pre @ s) md
           = (fst (string_replace (placeholder fmt dn date) pre md)
                @ (if getDay date = 0 then js ''2024-03-11'' else js ''2024-03-04'')
                @ fst (string_replace (placeholder fmt dn date) (mt_rest m) True), True)
         \<and> replacement fmt dn date m
             = (if getDay date = 0 then js ''2024-03-11'' else js ''2024-03-04'')
         \<and> fst (placeholder_inline fmt dn date m md) = replacement fmt dn date m
         \<and> match_at (js ''!{{monday:YYYY-MM-DD}}'' @ rest)
             = Some \<lparr>mt_text = js ''!{{monday:YYYY-MM-DD}}'', mt_dayName = js ''monday'',
                     mt_format = js ''YYYY-MM-DD'', mt_rest = rest\<rparr>"
proof -
  let ?target = "moment_day date 1"
  let ?date = "if getDay date = 0 then js ''2024-03-11'' else js ''2024-03-04''"
  from week have range: "19786 \<le> local_day date" "local_day date \<le> 19792"
    by (simp_all add: iso_week_2024_10)
  have day: "local_day ?target = (if getDay date = 0 then 19793 else 19786)"
    by (rule monday_of_week_10 [OF range])
  then have "0 \<le> fst (civil_from_days (local_day ?target))
             \<and> fst (civil_from_days (local_day ?target)) \<le> 9999"
    by (simp add: iso_date_samples)
  with fmt have "fmt ?target (js ''YYYY-MM-DD'') = iso_date (local_day ?target)" by blast
  with day have shown: "fmt ?target (js ''YYYY-MM-DD'') = ?date"
    by (simp add: iso_date_samples)
  have r: "replacement fmt dn date m = ?date"
    using monday_replacer(1) [OF tok(2,3), of fmt dn date False] shown
    by (simp add: replacement_def)
  have i: "fst (placeholder_inline fmt dn date m md) = replacement fmt dn date m"
    using monday_replacer(2) [OF tok(2,3), of fmt dn date md] shown r by simp
  have d: "string_replace (placeholder fmt dn date) (pre @ s) md
           = (fst (string_replace (placeholder fmt dn date) pre md) @ ?date
                @ fst (string_replace (placeholder fmt dn date) (mt_rest m) True), True)"
    using string_replace_at_token [OF tok(1) reach, of fmt dn date md] r by simp
  from d r i monday_token show ?thesis by blast
qed

theorem C1_monday_of_week_witness:
  "string_replace (placeholder sample_format None \<lparr>local_day = 19788, local_ms = 0\<rparr>)
      (js ''!{{sunday:YYYY-MM-DD}} and !{{monday:YYYY-MM-DD}}.'') False
     = (js ''2024-03-03 and 2024-03-04.'', True)"
proof -
  let ?d = "\<lparr>local_day = 19788, local_ms = 0\<rparr>"
  let ?pre = "js ''!{{sunday:YYYY-MM-DD}} and ''"
  let ?s = "js ''!{{monday:YYYY-MM-DD}}'' @ js ''.''"
  let ?m = "\<lparr>mt_text = js ''!{{monday:YYYY-MM-DD}}'', mt_dayName = js ''monday'',
           mt_format = js ''YYYY-MM-DD'', mt_rest = js ''.''\<rparr>"
  have f: "\<forall>m. 0 \<le> fst (civil_from_days (local_day m)) \<and> fst (civil_from_days (local_day m)) \<le> 9999
             \<longrightarrow> sample_format m (js ''YYYY-MM-DD'') = iso_date (local_day m)"
    by (simp add: sample_format_def)
  have w: "iso_week (local_day ?d) = (2024, 10)" by (simp add: iso_week_samples)
  have t: "match_at ?s = Some ?m" by (rule monday_token)
  have t2: "toLowerCase (mt_dayName ?m) = js ''monday''" "mt_format ?m = js ''YYYY-MM-DD''"
    by (simp_all add: js_def toLowerCase_def)
  have "list_all (\<lambda>i. case match_at (drop i (?pre @ ?s)) of None \<Rightarrow> True
                 | Some m' \<Rightarrow> length ?s \<le> length (mt_rest m')) [0..<length ?pre]"
    by code_simp
  then have reach: "\<forall>i<length ?pre. \<forall>m'. match_at (drop i (?pre @ ?s)) = Some m' \<longrightarrow>
                  length ?s \<le> length (mt_rest m')"
    by (rule reach_by_scan)
  have g: "getDay ?d \<noteq> 0" by (simp add: getDay_def)
  have p: "fst (string_replace (placeholder sample_format None ?d) ?pre False) = js ''2024-03-03 and ''"
    by code_simp
  have e: "fst (string_replace (placeholder sample_format None ?d) (js ''.'') True) = js ''.''"
    by code_simp
  from C1_monday_of_week [where fmt = sample_format and date = ?d and s = ?s and m = ?m
      and pre = ?pre and dn = None and md = False, OF f w t t2 reach]
  have "string_replace (placeholder sample_format None ?d) (?pre @ ?s) False
           = (fst (string_replace (placeholder sample_format None ?d) ?pre False)
                @ (if getDay ?d = 0 then js ''2024-03-11'' else js ''2024-03-04'')
                @ fst (string_replace (placeholder sample_format None ?d) (mt_rest ?m) True), True)"
    by blast
  then have "string_replace (placeholder sample_format None ?d) (?pre @ ?s) False
           = (js ''2024-03-03 and '' @ js ''2024-03-04'' @ js ''.'', True)"
    using g by (simp only: p e if_False rmatch.simps append_assoc)
  then show ?thesis by (simp only: sample_monday_doc)
qed

text \<open>
  The anchor 2024-03-10 is the Sunday of ISO week 2024-W10, whose Monday is
  2024-03-04; the token is replaced by \<open>2024-03-11\<close>. And in the document
  \<open>!{{sunday:x!{{monday:YYYY-MM-DD}}\<close> the text of the monday token lies inside the
  spec of the sunday token, which is the only match of the scan: the monday token is
  not replaced on its own.
\<close>

theorem C1_monday_counterexample:
  "iso_week (days_from_civil 2024 3 4) = (2024, 10)
   \<and> getDay \<lparr>local_day = days_from_civil 2024 3 4, local_ms = 0\<rparr> = 1
   \<and> iso_date (days_from_civil 2024 3 4) = js ''2024-03-04''
   \<and> iso_week (days_from_civil 2024 3 10) = (2024, 10)
   \<and> string_replace
        (placeholder sample_format None \<lparr>local_day = days_from_civil 2024 3 10, local_ms = 0\<rparr>)
        (js ''!{{monday:YYYY-MM-DD}}'') False = (js ''2024-03-11'', True)
   \<and> tokenize (js ''!{{sunday:x!{{monday:YYYY-MM-DD}}'')
       = [Tok \<lparr>mt_text = js ''!{{sunday:x!{{monday:YYYY-MM-DD}}'', mt_dayName = js ''sunday'',
               mt_format = js ''x!{{monday:YYYY-MM-DD'', mt_rest = []\<rparr>]"
  by code_simp

text \<open>
  C4. Let the document be \<open>pre\<close> followed by \<open>s\<close>, where \<open>s\<close> begins with a token whose
  weekday is friday (in any letter case) and whose spec is \<open>daily-note\<close> after
  trimming, and where every match that begins in \<open>pre\<close> ends in \<open>pre\<close>. When the
  daily-notes plugin is enabled with the format \<open>YYYY-MM-DD\<close> and the folder \<open>Daily\<close>,
  the token is replaced by \<open>Daily/\<close> followed by the Friday of the anchor in the form
  \<open>YYYY-MM-DD\<close>; when the plugin is absent or disabled, by that Friday in the form
  \<open>YYYY-MM-DD\<close> alone; the text before and after the token is rewritten on its own.
  The Friday of the anchor is the day with \<open>getDay\<close> 5 in the Sunday-to-Saturday week of
  the anchor: it lies in the ISO week of the anchor when the anchor is one of Monday to
  Saturday, and it is the fifth day after the anchor when the anchor is a Sunday.
  \<open>!{{friday:daily-note}}\<close> before any text is such a token.
\<close>

theorem C4_friday_daily_note:
  assumes tok: "match_at s = Some m" "toLowerCase (mt_dayName m) = js ''friday''"
      "trim (mt_format m) = js ''daily-note''"
    and reach: "\<forall>i<length pre. \<forall>m'. match_at (drop i (pre @ s)) = Some m' \<longrightarrow>
                  length s \<le> length (mt_rest m')"
  shows "(enabled p \<and> opt_format (options p) = Some (js ''YYYY-MM-DD'')
            \<and> opt_folder (options p) = Some (js ''Daily'') \<longrightarrow>
          placeholder fmt (Some p) date m md
            = (js ''Daily/'' @ fmt (moment_day date 5) (js ''YYYY-MM-DD''), True)
          \<and> string_replace (placeholder fmt (Some p) date) (pre @ s) md
            = (fst (string_replace (placeholder fmt (Some p) date) pre md)
                 @ js ''Daily/'' @ fmt (moment_day date 5) (js ''YYYY-MM-DD'')
                 @ fst (string_replace (placeholder fmt (Some p) date) (mt_rest m) True), True))
       \<and> (dn = None \<or> (\<exists>q. dn = Some q \<and> \<not> enabled q) \<longrightarrow>
          placeholder fmt dn date m md = (fmt (moment_day date 5) (js ''YYYY-MM-DD''), True)
          \<and> string_replace (placeholder fmt dn date) (pre @ s) md
            = (fst (string_replace (placeholder fmt dn date) pre md)
                 @ fmt (moment_day date 5) (js ''YYYY-MM-DD'')
                 @ fst (string_replace (placeholder fmt dn date) (mt_rest m) True), True))
       \<and> getDay (moment_day date 5) = 5
       \<and> local_day (moment_day date 5) = local_day date + (5 - getDay date)
       \<and> (getDay date \<noteq> 0 \<longrightarrow>
            iso_week (local_day (moment_day date 5)) = iso_week (local_day date))
       \<and> (getDay date = 0 \<longrightarrow> local_day (moment_day date 5) = local_day date + 5)
       \<and> match_at (js ''!{{friday:daily-note}}'' @ rest)
             = Some \<lparr>mt_text = js ''!{{friday:daily-note}}'', mt_dayName = js ''friday'',
                     mt_format = js ''daily-note'', mt_rest = rest\<rparr>"
proof (intro conjI impI)
  let ?ymd = "fmt (moment_day date 5) (js ''YYYY-MM-DD'')"
  have cb: "placeholder fmt d date m md
      = (or_default (getDailyNoteLink fmt d (moment_day date 5)) ?ymd, True)" for d
    by (rule daily_note_replacer [OF tok(2,3)])
  have str: "string_replace (placeholder fmt d date) (pre @ s) md
      = (fst (string_replace (placeholder fmt d date) pre md)
           @ or_default (getDailyNoteLink fmt d (moment_day date 5)) ?ymd
           @ fst (string_replace (placeholder fmt d date) (mt_rest m) True), True)" for d
  proof -
    have "replacement fmt d date m = or_default (getDailyNoteLink fmt d (moment_day date 5)) ?ymd"
      using daily_note_replacer [OF tok(2,3), of fmt d date False] by (simp add: replacement_def)
    with string_replace_at_token [OF tok(1) reach, of fmt d date md] show ?thesis by simp
  qed
  {
    assume on: "enabled p \<and> opt_format (options p) = Some (js ''YYYY-MM-DD'')
            \<and> opt_folder (options p) = Some (js ''Daily'')"
    then have link: "or_default (getDailyNoteLink fmt (Some p) (moment_day date 5)) ?ymd
                  = js ''Daily/'' @ ?ymd"
      by (simp add: getDailyNoteLink_def or_default_def daily_nonempty js_def)
    show "placeholder fmt (Some p) date m md = (js ''Daily/'' @ ?ymd, True)"
      using cb [of "Some p"] link by simp
    show "string_replace (placeholder fmt (Some p) date) (pre @ s) md
            = (fst (string_replace (placeholder fmt (Some p) date) pre md)
                 @ js ''Daily/'' @ ?ymd
                 @ fst (string_replace (placeholder fmt (Some p) date) (mt_rest m) True), True)"
      using str [of "Some p"] link by simp
  }
  {
    assume off: "dn = None \<or> (\<exists>q. dn = Some q \<and> \<not> enabled q)"
    then have link: "or_default (getDailyNoteLink fmt dn (moment_day date 5)) ?ymd = ?ymd"
      by (auto simp: getDailyNoteLink_def or_default_def)
    show "placeholder fmt dn date m md = (?ymd, True)"
      using cb [of dn] link by simp
    show "string_replace (placeholder fmt dn date) (pre @ s) md
            = (fst (string_replace (placeholder fmt dn date) pre md) @ ?ymd
                 @ fst (string_replace (placeholder fmt dn date) (mt_rest m) True), True)"
      using str [of dn] link by simp
  }
  show "getDay (moment_day date 5) = 5"
    using getDay_moment_day [of 5 date] by simp
  show "local_day (moment_day date 5) = local_day date + (5 - getDay date)"
    by (simp add: moment_day_def)
  show "iso_week (local_day (moment_day date 5)) = iso_week (local_day date)"
    if "getDay date \<noteq> 0"
    using that by (rule friday_same_iso_week)
  show "local_day (moment_day date 5) = local_day date + 5" if "getDay date = 0"
    using that by (simp add: moment_day_def)
  show "match_at (js ''!{{friday:daily-note}}'' @ rest)
             = Some \<lparr>mt_text = js ''!{{friday:daily-note}}'', mt_dayName = js ''friday'',
                     mt_format = js ''daily-note'', mt_rest = rest\<rparr>"
    by (rule friday_token)
qed

theorem C4_friday_daily_note_witness:
  "string_replace
     (placeholder sample_format (Some (sample_daily (Some (js ''YYYY-MM-DD'')) (Some (js ''Daily''))))
        \<lparr>local_day = 19788, local_ms = 0\<rparr>)
     (js ''Due !{{friday:daily-note}}.'') False = (js ''Due Daily/2024-03-08.'', True)
   \<and> string_replace (placeholder sample_format None \<lparr>local_day = 19788, local_ms = 0\<rparr>)
     (js ''Due !{{friday:daily-note}}.'') False = (js ''Due 2024-03-08.'', True)"
proof -
  let ?d = "\<lparr>local_day = 19788, local_ms = 0\<rparr>"
  let ?p = "sample_daily (Some (js ''YYYY-MM-DD'')) (Some (js ''Daily''))"
  let ?pre = "js ''Due ''"
  let ?s = "js ''!{{friday:daily-note}}'' @ js ''.''"
  let ?m = "\<lparr>mt_text = js ''!{{friday:daily-note}}'', mt_dayName = js ''friday'',
           mt_format = js ''daily-note'', mt_rest = js ''.''\<rparr>"
  have t: "match_at ?s = Some ?m" by (rule friday_token)
  have a: "toLowerCase (mt_dayName ?m) = js ''friday''" "trim (mt_format ?m) = js ''daily-note''"
    by (simp_all add: daily_note_keyword)
  have "list_all (\<lambda>i. case match_at (drop i (?pre @ ?s)) of None \<Rightarrow> True
                 | Some m' \<Rightarrow> length ?s \<le> length (mt_rest m')) [0..<length ?pre]"
    by code_simp
  then have reach: "\<forall>i<length ?pre. \<forall>m'. match_at (drop i (?pre @ ?s)) = Some m' \<longrightarrow>
                  length ?s \<le> length (mt_rest m')"
    by (rule reach_by_scan)
  have on: "enabled ?p \<and> opt_format (options ?p) = Some (js ''YYYY-MM-DD'')
            \<and> opt_folder (options ?p) = Some (js ''Daily'')"
    by (simp add: sample_daily_def)
  have v: "sample_format (moment_day ?d 5) (js ''YYYY-MM-DD'') = js ''2024-03-08''"
    by code_simp
  have e: "fst (string_replace (placeholder sample_format (Some ?p) ?d) ?pre False) = js ''Due ''"
    "fst (string_replace (placeholder sample_format None ?d) ?pre False) = js ''Due ''"
    "fst (string_replace (placeholder sample_format (Some ?p) ?d) (js ''.'') True) = js ''.''"
    "fst (string_replace (placeholder sample_format None ?d) (js ''.'') True) = js ''.''"
    by code_simp+
  note c = C4_friday_daily_note [where p = ?p and fmt = sample_format and date = ?d
      and md = False and s = ?s and m = ?m and pre = ?pre and dn = None, OF t a reach]
  from c on have 1: "string_replace (placeholder sample_format (Some ?p) ?d) (?pre @ ?s) False
            = (fst (string_replace (placeholder sample_format (Some ?p) ?d) ?pre False)
                 @ js ''Daily/'' @ sample_format (moment_day ?d 5) (js ''YYYY-MM-DD'')
                 @ fst (string_replace (placeholder sample_format (Some ?p) ?d) (mt_rest ?m) True),
               True)"
    by blast
  from c have 2: "string_replace (placeholder sample_format None ?d) (?pre @ ?s) False
            = (fst (string_replace (placeholder sample_format None ?d) ?pre False)
                 @ sample_format (moment_day ?d 5) (js ''YYYY-MM-DD'')
                 @ fst (string_replace (placeholder sample_format None ?d) (mt_rest ?m) True), True)"
    by blast
  from 1 have 1: "string_replace (placeholder sample_format (Some ?p) ?d) (?pre @ ?s) False
      = (js ''Due '' @ js ''Daily/'' @ js ''2024-03-08'' @ js ''.'', True)"
    by (simp only: e v rmatch.simps)
  from 2 have 2: "string_replace (placeholder sample_format None ?d) (?pre @ ?s) False
      = (js ''Due '' @ js ''2024-03-08'' @ js ''.'', True)"
    by (simp only: e v rmatch.simps)
  from 1 2 show ?thesis by (simp only: sample_friday_doc)
qed

text \<open>
  The anchor 2024-03-10 is the Sunday of ISO week 2024-W10, whose Friday is
  2024-03-08; the token is replaced by \<open>Daily/2024-03-15\<close>, or by \<open>2024-03-15\<close> without
  the plugin, a day of ISO week 2024-W11.
\<close>

theorem C4_sunday_anchor_counterexample:
  "iso_week (days_from_civil 2024 3 10) = (2024, 10)
   \<and> iso_week (days_from_civil 2024 3 8) = (2024, 10)
   \<and> getDay \<lparr>local_day = days_from_civil 2024 3 8, local_ms = 0\<rparr> = 5
   \<and> iso_date (days_from_civil 2024 3 8) = js ''2024-03-08''
   \<and> string_replace
        (placeholder sample_format
           (Some (sample_daily (Some (js ''YYYY-MM-DD'')) (Some (js ''Daily''))))
           \<lparr>local_day = days_from_civil 2024 3 10, local_ms = 0\<rparr>)
        (js ''!{{friday:daily-note}}'') False = (js ''Daily/2024-03-15'', True)
   \<and> string_replace
        (placeholder sample_format None
           \<lparr>local_day = days_from_civil 2024 3 10, local_ms = 0\<rparr>)
        (js ''!{{friday:daily-note}}'') False = (js ''2024-03-15'', True)
   \<and> iso_week (days_from_civil 2024 3 15) = (2024, 11)"
  by code_simp

end
